theory Spec2Isabelle
  imports Complex_Main "HOL-Library.Multiset" "HOL-Library.Char_ord" "HOL-Library.List_Lexorder"
    "HOL-Library.Product_Lexorder"
begin

section \<open>Pharmaceutical route optimizer (route\_planner.py)\<close>

text \<open>
  The embedding follows \<^verbatim>\<open>src/Prototyping/route-optimizer/route_planner.py\<close>.

  Conventions of the model:
  \<^item> A Python float is a \<open>pyfloat\<close>: a finite value, an infinity or NaN. Comparisons
    are those of IEEE 754 (every comparison with NaN is false).
  \<^item> The arithmetic of floats rounds, and the functions of \<open>math\<close> are those of the
    platform. They are not defined here: every function of the model takes the float
    operations as its first argument, a record \<open>F\<close> of type \<open>float_ops\<close>, and the
    theorems hold for every \<open>F\<close>, so also for the doubles of the interpreter. An
    operation that can raise returns \<open>error + pyfloat\<close>.
  \<^item> The record \<open>exact_ops\<close> computes without rounding. It is used at concrete
    inputs only.
  \<^item> An \<open>int\<close> that meets a float in arithmetic is read as the float of the same
    value. The field \<open>priority\<close> is declared \<open>int\<close>; its first use in a run is the
    product with the float \<open>emergency_multiplier\<close>, and the adjusted priority is a
    float. The model keeps the priority as a float throughout: an \<open>int\<close> priority
    stands for the double of the same value (an \<open>int\<close> beyond the range of the doubles,
    whose conversion raises \<open>OverflowError\<close>, has none).
  \<^item> A \<open>datetime\<close> is its number of microseconds since the epoch (an \<open>int\<close>);
    a \<open>timedelta\<close> is a number of microseconds.
  \<^item> \<open>datetime.now()\<close> reads the wall clock. The clock is the function
    \<open>clk\<close> giving the value of the \<open>k\<close>-th reading of a run; every function
    that reads the clock takes the index of the next reading and returns the index
    after its own readings.
  \<^item> Exceptions are values of type \<open>error\<close>; a function that can raise returns
    \<open>error + result\<close>.
  \<^item> Logging is not modelled.
\<close>

subsection \<open>Floats\<close>

datatype pyfloat = Fin real | PosInf | NegInf | NaN

fun py_lt :: "pyfloat \<Rightarrow> pyfloat \<Rightarrow> bool" where
  "py_lt (Fin a) (Fin b) = (a < b)"
| "py_lt (Fin a) PosInf = True"
| "py_lt NegInf (Fin b) = True"
| "py_lt NegInf PosInf = True"
| "py_lt x y = False"

fun py_eq :: "pyfloat \<Rightarrow> pyfloat \<Rightarrow> bool" where
  "py_eq (Fin a) (Fin b) = (a = b)"
| "py_eq PosInf PosInf = True"
| "py_eq NegInf NegInf = True"
| "py_eq x y = False"

definition py_gt :: "pyfloat \<Rightarrow> pyfloat \<Rightarrow> bool" where
  "py_gt x y = py_lt y x"

definition py_le :: "pyfloat \<Rightarrow> pyfloat \<Rightarrow> bool" where
  "py_le x y = (py_lt x y \<or> py_eq x y)"

text \<open>\<open>min(a, b)\<close> returns \<open>b\<close> when \<open>b < a\<close> and \<open>a\<close> otherwise.\<close>

definition py_min :: "pyfloat \<Rightarrow> pyfloat \<Rightarrow> pyfloat" where
  "py_min a b = (if py_lt b a then b else a)"

datatype error =
  ValueError | ZeroDivisionError | OverflowError | IndexError | TypeError | AttributeError

text \<open>
  The float operations the source uses. \<open>f_lit\<close> is the double a decimal literal of
  the source denotes, \<open>f_pow2\<close> is \<open>x ** 2\<close>, \<open>f_seconds\<close> is
  \<open>timedelta.total_seconds()\<close> on a number of microseconds, \<open>f_round2\<close> is
  \<open>round(x, 2)\<close> and \<open>f_int\<close> is \<open>int(x)\<close>. \<open>f_div\<close> is the division by a
  divisor that is not zero; the source's divisions by a computed value are guarded where
  they stand.
\<close>

record float_ops =
  f_lit :: "real \<Rightarrow> pyfloat"
  f_add :: "pyfloat \<Rightarrow> pyfloat \<Rightarrow> pyfloat"
  f_sub :: "pyfloat \<Rightarrow> pyfloat \<Rightarrow> pyfloat"
  f_mul :: "pyfloat \<Rightarrow> pyfloat \<Rightarrow> pyfloat"
  f_div :: "pyfloat \<Rightarrow> pyfloat \<Rightarrow> pyfloat"
  f_pow2 :: "pyfloat \<Rightarrow> error + pyfloat"
  f_radians :: "pyfloat \<Rightarrow> pyfloat"
  f_sin :: "pyfloat \<Rightarrow> error + pyfloat"
  f_cos :: "pyfloat \<Rightarrow> error + pyfloat"
  f_sqrt :: "pyfloat \<Rightarrow> error + pyfloat"
  f_atan2 :: "pyfloat \<Rightarrow> pyfloat \<Rightarrow> pyfloat"
  f_seconds :: "int \<Rightarrow> pyfloat"
  f_round2 :: "pyfloat \<Rightarrow> pyfloat"
  f_int :: "pyfloat \<Rightarrow> error + int"

text \<open>Sequencing of computations that can raise.\<close>

definition and_then :: "error + 'a \<Rightarrow> ('a \<Rightarrow> error + 'b) \<Rightarrow> error + 'b" where
  "and_then r f = (case r of Inl e \<Rightarrow> Inl e | Inr x \<Rightarrow> f x)"

subsection \<open>Data model\<close>

type_synonym datetime = int

type_synonym clock = "nat \<Rightarrow> datetime"

definition timedelta_hours :: "int \<Rightarrow> int" where
  "timedelta_hours h = h * 3600 * 1000000"

record Pharmacy =
  id_p :: string
  name :: string
  latitude :: pyfloat
  longitude :: pyfloat
  priority :: pyfloat
  delivery_window :: "datetime \<times> datetime"

record RouteSegment =
  start_pharmacy :: Pharmacy
  end_pharmacy :: Pharmacy
  distance_km :: pyfloat
  estimated_duration_min :: int
  road_conditions :: string
  weather_risk :: pyfloat

datatype pyval = Str string | Num pyfloat

type_synonym weather = "string \<rightharpoonup> pyval"

definition road_conditions_weights :: "float_ops \<Rightarrow> string \<rightharpoonup> pyfloat" where
  "road_conditions_weights F =
     [''highway'' \<mapsto> f_lit F 1.0, ''paved_road'' \<mapsto> f_lit F 1.2, ''gravel_road'' \<mapsto> f_lit F 1.5,
      ''mountain_pass'' \<mapsto> f_lit F 2.0, ''winter_road'' \<mapsto> f_lit F 1.8]"

subsection \<open>calculate\_distance\<close>

text \<open>
  The expressions are evaluated left to right. \<open>math.sin\<close> and \<open>math.cos\<close> raise
  \<open>ValueError\<close> on an infinity and \<open>math.sqrt\<close> raises it on a negative argument;
  the term \<open>a\<close> is a rounded sum and can leave the interval from 0 to 1.
\<close>

definition haversine_term ::
  "float_ops \<Rightarrow> pyfloat \<Rightarrow> pyfloat \<Rightarrow> pyfloat \<Rightarrow> pyfloat \<Rightarrow> error + pyfloat" where
  "haversine_term F lat1 lon1 lat2 lon2 =
     (let dlat = f_sub F lat2 lat1;
          dlon = f_sub F lon2 lon1
      in and_then (f_sin F (f_div F dlat (Fin 2))) (\<lambda>s1.
         and_then (f_pow2 F s1) (\<lambda>h1.
         and_then (f_cos F lat1) (\<lambda>c1.
         and_then (f_cos F lat2) (\<lambda>c2.
         and_then (f_sin F (f_div F dlon (Fin 2))) (\<lambda>s2.
         and_then (f_pow2 F s2) (\<lambda>h2.
           Inr (f_add F h1 (f_mul F (f_mul F c1 c2) h2)))))))))"

text \<open>The last two lines of the function: \<open>c = 2 * atan2(sqrt(a), sqrt(1-a))\<close> and \<open>R * c\<close>.\<close>

definition great_circle :: "float_ops \<Rightarrow> pyfloat \<Rightarrow> error + pyfloat" where
  "great_circle F a =
     (let R = Fin 6371
      in and_then (f_sqrt F a) (\<lambda>y.
         and_then (f_sqrt F (f_sub F (Fin 1) a)) (\<lambda>x.
           let c = f_mul F (Fin 2) (f_atan2 F y x)
           in Inr (f_mul F R c))))"

definition calculate_distance ::
  "float_ops \<Rightarrow> pyfloat \<Rightarrow> pyfloat \<Rightarrow> pyfloat \<Rightarrow> pyfloat \<Rightarrow> error + pyfloat" where
  "calculate_distance F lat1 lon1 lat2 lon2 =
     and_then (haversine_term F (f_radians F lat1) (f_radians F lon1)
                                (f_radians F lat2) (f_radians F lon2))
       (great_circle F)"

subsection \<open>Priority adjustment\<close>

definition emergency_zones :: "float_ops \<Rightarrow> string \<rightharpoonup> pyfloat" where
  "emergency_zones F = [''pharmacy_001'' \<mapsto> f_lit F 2.5, ''pharmacy_005'' \<mapsto> f_lit F 1.8]"

text \<open>\<open>emergency_zones.get(pharmacy.id, 1.0)\<close>\<close>

definition detect_emergency_situation :: "float_ops \<Rightarrow> Pharmacy \<Rightarrow> pyfloat" where
  "detect_emergency_situation F pharmacy =
     (case emergency_zones F (id_p pharmacy) of None \<Rightarrow> f_lit F 1.0 | Some m \<Rightarrow> m)"

text \<open>The body of the \<open>for\<close> loop: the boosted copy of one pharmacy.\<close>

definition boosted_pharmacy :: "float_ops \<Rightarrow> Pharmacy \<Rightarrow> Pharmacy" where
  "boosted_pharmacy F pharmacy =
     (let emergency_multiplier = detect_emergency_situation F pharmacy
      in \<lparr>id_p = id_p pharmacy,
          name = name pharmacy,
          latitude = latitude pharmacy,
          longitude = longitude pharmacy,
          priority = py_min (Fin 10) (f_mul F (priority pharmacy) emergency_multiplier),
          delivery_window = delivery_window pharmacy\<rparr>)"

text \<open>
  \<open>sorted(xs, key=f, reverse=True)\<close>: Python sorts stably and, with
  \<open>reverse=True\<close>, reverses the list, sorts it stably in ascending order and reverses the
  result, so that elements with equal keys keep their original order. The keys are
  compared through \<open>sort_rank\<close>, which orders the floats that are not NaN as
  \<open>py_lt\<close> does; the place it gives to NaN is a choice of the model (the order in
  which Python leaves a list with NaN keys depends on the list). The keys of
  \<open>apply_emergency_priority\<close> are never NaN.
\<close>

fun sort_rank :: "pyfloat \<Rightarrow> nat \<times> real" where
  "sort_rank NegInf = (0, 0)"
| "sort_rank (Fin r) = (1, r)"
| "sort_rank PosInf = (2, 0)"
| "sort_rank NaN = (3, 0)"

definition sorted_reverse :: "('a \<Rightarrow> pyfloat) \<Rightarrow> 'a list \<Rightarrow> 'a list" where
  "sorted_reverse f xs = rev (sort_key (\<lambda>x. sort_rank (f x)) (rev xs))"

definition apply_emergency_priority :: "float_ops \<Rightarrow> Pharmacy list \<Rightarrow> Pharmacy list" where
  "apply_emergency_priority F pharmacies =
     (let emergency_boosted = map (boosted_pharmacy F) pharmacies
      in sorted_reverse priority emergency_boosted)"

subsection \<open>Scoring\<close>

definition calculate_weather_impact :: "float_ops \<Rightarrow> weather \<Rightarrow> Pharmacy \<Rightarrow> pyfloat" where
  "calculate_weather_impact F weather pharmacy =
     (let base_risk = f_lit F 0.1;
          base_risk = (if py_gt (latitude pharmacy) (f_lit F 52.5)
                       then f_add F base_risk (f_lit F 0.3) else base_risk);
          base_risk = (if weather ''condition'' = Some (Str ''snow'') then f_add F base_risk (f_lit F 0.4)
                       else if weather ''condition'' = Some (Str ''rain'') then f_add F base_risk (f_lit F 0.2)
                       else base_risk)
      in py_min base_risk (f_lit F 1.0))"

text \<open>Reads the clock once (reading \<open>k\<close>).\<close>

definition calculate_time_urgency :: "float_ops \<Rightarrow> clock \<Rightarrow> nat \<Rightarrow> Pharmacy \<Rightarrow> pyfloat \<times> nat" where
  "calculate_time_urgency F clk k pharmacy =
     (let now = clk k;
          (window_start, window_end) = delivery_window pharmacy;
          time_until_start = f_div F (f_seconds F (window_start - now)) (Fin 3600)
      in (if py_le time_until_start (Fin 2) then Fin 30
          else if py_le time_until_start (Fin 4) then Fin 15
          else Fin 5, Suc k))"

text \<open>Float division raises \<open>ZeroDivisionError\<close> on a zero divisor.\<close>

definition calculate_pharmacy_score ::
  "float_ops \<Rightarrow> clock \<Rightarrow> nat \<Rightarrow> Pharmacy \<Rightarrow> Pharmacy \<Rightarrow> weather \<Rightarrow> error + (pyfloat \<times> nat)" where
  "calculate_pharmacy_score F clk k current target weather =
     and_then (calculate_distance F (latitude current) (longitude current)
                                    (latitude target) (longitude target)) (\<lambda>distance.
       let divisor = f_add F distance (Fin 1)
       in if py_eq divisor (Fin 0) then Inl ZeroDivisionError
          else
            let distance_score = f_div F (Fin 100) divisor;
                priority_score = f_mul F (priority target) (Fin 10);
                weather_impact = calculate_weather_impact F weather target;
                weather_score = f_mul F (Fin 50) (f_sub F (Fin 1) weather_impact);
                (time_urgency, k') = calculate_time_urgency F clk k target;
                total_score = f_add F (f_add F (f_add F distance_score priority_score) weather_score)
                                time_urgency
            in Inr (total_score, k'))"

subsection \<open>Selecting the next pharmacy\<close>

text \<open>
  The \<open>for\<close> loop over the candidates, on the state \<open>(best_score, best_pharmacy)\<close>,
  which starts as \<open>(float('-inf'), None)\<close>.
\<close>

fun select_loop ::
  "float_ops \<Rightarrow> clock \<Rightarrow> nat \<Rightarrow> Pharmacy \<Rightarrow> Pharmacy list \<Rightarrow> weather \<Rightarrow> pyfloat \<times> Pharmacy option
     \<Rightarrow> error + ((pyfloat \<times> Pharmacy option) \<times> nat)" where
  "select_loop F clk k current [] weather st = Inr (st, k)"
| "select_loop F clk k current (pharmacy # rest) weather (best_score, best_pharmacy) =
     (case calculate_pharmacy_score F clk k current pharmacy weather of
        Inl e \<Rightarrow> Inl e
      | Inr (score, k') \<Rightarrow>
          if py_gt score best_score
          then select_loop F clk k' current rest weather (score, Some pharmacy)
          else select_loop F clk k' current rest weather (best_score, best_pharmacy))"

definition select_next_pharmacy ::
  "float_ops \<Rightarrow> clock \<Rightarrow> nat \<Rightarrow> Pharmacy \<Rightarrow> Pharmacy list \<Rightarrow> weather
     \<Rightarrow> error + (Pharmacy option \<times> nat)" where
  "select_next_pharmacy F clk k current candidates weather =
     (case select_loop F clk k current candidates weather (NegInf, None) of
        Inl e \<Rightarrow> Inl e
      | Inr ((best_score, best_pharmacy), k') \<Rightarrow> Inr (best_pharmacy, k'))"

subsection \<open>optimize\_delivery\_route\<close>

text \<open>
  The \<open>while unvisited\<close> loop. \<open>route[-1]\<close> raises \<open>IndexError\<close> on an empty
  list and \<open>unvisited.remove(x)\<close> raises \<open>ValueError\<close> when \<open>x\<close> is not in the
  list; it removes the first element equal to \<open>x\<close> (dataclass equality compares all
  fields). A result \<open>None\<close> of the selection takes the \<open>break\<close> branch.
\<close>

function route_loop ::
  "float_ops \<Rightarrow> clock \<Rightarrow> nat \<Rightarrow> weather \<Rightarrow> Pharmacy list \<Rightarrow> Pharmacy list
     \<Rightarrow> error + (Pharmacy list \<times> nat)" where
  "route_loop F clk k weather route unvisited =
     (if unvisited = [] then Inr (route, k)
      else if route = [] then Inl IndexError
      else
        let current_location = last route
        in case select_next_pharmacy F clk k current_location unvisited weather of
             Inl e \<Rightarrow> Inl e
           | Inr (None, k') \<Rightarrow> Inr (route, k')
           | Inr (Some next_pharmacy, k') \<Rightarrow>
               if next_pharmacy \<in> set unvisited
               then route_loop F clk k' weather (route @ [next_pharmacy]) (remove1 next_pharmacy unvisited)
               else Inl ValueError)"
  by pat_completeness auto
termination
  by (relation "measure (\<lambda>(F, clk, k, weather, route, unvisited). length unvisited)")
     (auto simp: length_remove1 intro: length_pos_if_in_set)

declare route_loop.simps [simp del]

text \<open>The depot is built from two readings of the clock.\<close>

definition depot :: "float_ops \<Rightarrow> clock \<Rightarrow> nat \<Rightarrow> Pharmacy" where
  "depot F clk k =
     \<lparr>id_p = ''depot'',
      name = ''Central Distribution Center'',
      latitude = f_lit F 52.0375,
      longitude = f_lit F 106.6522,
      priority = Fin 1,
      delivery_window = (clk k, clk (Suc k) + timedelta_hours 8)\<rparr>"

definition optimize_delivery_route ::
  "float_ops \<Rightarrow> clock \<Rightarrow> nat \<Rightarrow> Pharmacy list \<Rightarrow> int \<Rightarrow> weather \<Rightarrow> error + (Pharmacy list \<times> nat)" where
  "optimize_delivery_route F clk k pharmacies vehicle_capacity current_weather =
     (if pharmacies = [] then Inr ([], k)
      else
        let prioritized_pharmacies = apply_emergency_priority F pharmacies
        in case route_loop F clk (Suc (Suc k)) current_weather [depot F clk k] prioritized_pharmacies of
             Inl e \<Rightarrow> Inl e
           | Inr (route, k') \<Rightarrow> Inr (route @ [depot F clk k], k'))"

subsection \<open>generate\_route\_report\<close>

text \<open>
  The totals start as the \<open>int\<close> 0 and become floats with the first addition;
  \<open>round\<close> and \<open>int\<close> of an \<open>int\<close> are exact, and \<open>0 * 0.12\<close> is a float
  product.
\<close>

datatype pynum = PyInt int | PyFloat pyfloat

definition num_float :: "pynum \<Rightarrow> pyfloat" where
  "num_float n = (case n of PyInt i \<Rightarrow> Fin (real_of_int i) | PyFloat x \<Rightarrow> x)"

definition num_round2 :: "float_ops \<Rightarrow> pynum \<Rightarrow> pynum" where
  "num_round2 F n = (case n of PyInt i \<Rightarrow> PyInt i | PyFloat x \<Rightarrow> PyFloat (f_round2 F x))"

definition num_int :: "float_ops \<Rightarrow> pynum \<Rightarrow> error + int" where
  "num_int F n = (case n of PyInt i \<Rightarrow> Inr i | PyFloat x \<Rightarrow> f_int F x)"

text \<open>
  The two timestamps of the report are kept as clock values: \<open>route_id\<close> holds the
  second that \<open>strftime('%Y%m%d_%H%M%S')\<close> prints after \<open>route_\<close>, and
  \<open>generated_at\<close> the instant that \<open>isoformat()\<close> prints.
\<close>

record RouteReport =
  route_id :: int
  total_distance_km :: pynum
  total_duration_min :: int
  pharmacy_count :: int
  segments :: "RouteSegment list"
  estimated_fuel_consumption :: pyfloat
  generated_at :: datetime

text \<open>
  The loop \<open>for i in range(len(route) - 1)\<close> walks the consecutive pairs
  \<open>(route[i], route[i + 1])\<close>, on the state
  \<open>(total_distance, total_duration, segments)\<close>.
\<close>

fun report_loop ::
  "float_ops \<Rightarrow> Pharmacy list \<Rightarrow> pynum \<times> pynum \<times> RouteSegment list
     \<Rightarrow> error + (pynum \<times> pynum \<times> RouteSegment list)" where
  "report_loop F (start # end # rest) (total_distance, total_duration, segs) =
     and_then (calculate_distance F (latitude start) (longitude start)
                                    (latitude end) (longitude end)) (\<lambda>distance.
       let base_speed = Fin 60;
           road_condition_factor =
             (case road_conditions_weights F ''paved_road'' of None \<Rightarrow> f_lit F 1.0 | Some w \<Rightarrow> w);
           duration = f_mul F (f_mul F (f_div F distance base_speed) road_condition_factor) (Fin 60)
       in and_then (f_int F duration) (\<lambda>minutes.
            let segment = \<lparr>start_pharmacy = start,
                           end_pharmacy = end,
                           distance_km = f_round2 F distance,
                           estimated_duration_min = minutes,
                           road_conditions = ''paved_road'',
                           weather_risk = f_lit F 0.1\<rparr>
            in report_loop F (end # rest)
                 (PyFloat (f_add F (num_float total_distance) distance),
                  PyFloat (f_add F (num_float total_duration) duration),
                  segs @ [segment])))"
| "report_loop F route st = Inr st"

definition generate_route_report ::
  "float_ops \<Rightarrow> clock \<Rightarrow> nat \<Rightarrow> Pharmacy list \<Rightarrow> error + (RouteReport \<times> nat)" where
  "generate_route_report F clk k route =
     and_then (report_loop F route (PyInt 0, PyInt 0, [])) (\<lambda>(total_distance, total_duration, segs).
       and_then (num_int F total_duration) (\<lambda>minutes.
         Inr (\<lparr>route_id = clk k div 1000000,
               total_distance_km = num_round2 F total_distance,
               total_duration_min = minutes,
               pharmacy_count = int (length route) - 2,
               segments = segs,
               estimated_fuel_consumption =
                 f_round2 F (f_mul F (num_float total_distance) (f_lit F 0.12)),
               generated_at = clk (Suc k)\<rparr>, Suc (Suc k))))"

subsection \<open>Priority adjustment on the object store\<close>

text \<open>
  Python lists and dataclass instances are objects, passed by reference. To speak of what
  \<open>_apply_emergency_priority\<close> leaves untouched, the same function is written once more
  on a store: a list of objects addressed by their position, in which an allocation
  appends a new object. The input list is read, the list \<open>emergency_boosted\<close> and
  each boosted \<open>Pharmacy\<close> are allocated, \<open>append\<close> updates the new list in
  place, and \<open>sorted\<close> allocates the list that is returned. Reading a field of an
  object that is no \<open>Pharmacy\<close> raises \<open>AttributeError\<close>, iterating over an
  object that is no list raises \<open>TypeError\<close>.
\<close>

datatype obj = PharmacyObj Pharmacy | ListObj "nat list"

type_synonym store = "obj list"

definition lookup :: "store \<Rightarrow> nat \<Rightarrow> obj option" where
  "lookup h r = (if r < length h then Some (h ! r) else None)"

definition alloc :: "store \<Rightarrow> obj \<Rightarrow> nat \<times> store" where
  "alloc h v = (length h, h @ [v])"

text \<open>The \<open>for\<close> loop over the references of the input list.\<close>

fun boost_loop :: "float_ops \<Rightarrow> store \<Rightarrow> nat \<Rightarrow> nat list \<Rightarrow> error + store" where
  "boost_loop F h emergency_boosted [] = Inr h"
| "boost_loop F h emergency_boosted (r # rs) =
     (case lookup h r of
        Some (PharmacyObj pharmacy) \<Rightarrow>
          (let (boosted, h1) = alloc h (PharmacyObj (boosted_pharmacy F pharmacy))
           in case lookup h1 emergency_boosted of
                Some (ListObj xs) \<Rightarrow>
                  boost_loop F (h1[emergency_boosted := ListObj (xs @ [boosted])]) emergency_boosted rs
              | _ \<Rightarrow> Inl AttributeError)
      | _ \<Rightarrow> Inl AttributeError)"

definition is_pharmacy :: "store \<Rightarrow> nat \<Rightarrow> bool" where
  "is_pharmacy h r = (case lookup h r of Some (PharmacyObj p) \<Rightarrow> True | _ \<Rightarrow> False)"

text \<open>The sort key \<open>lambda x: x.priority\<close>, checked beforehand by \<open>is_pharmacy\<close>.\<close>

definition priority_at :: "store \<Rightarrow> nat \<Rightarrow> pyfloat" where
  "priority_at h r = (case lookup h r of Some (PharmacyObj p) \<Rightarrow> priority p | _ \<Rightarrow> Fin 0)"

definition apply_emergency_priority_store ::
  "float_ops \<Rightarrow> store \<Rightarrow> nat \<Rightarrow> error + (nat \<times> store)" where
  "apply_emergency_priority_store F h pharmacies =
     (case lookup h pharmacies of
        Some (ListObj rs) \<Rightarrow>
          (let (emergency_boosted, h0) = alloc h (ListObj [])
           in case boost_loop F h0 emergency_boosted rs of
                Inl e \<Rightarrow> Inl e
              | Inr h1 \<Rightarrow>
                  (case lookup h1 emergency_boosted of
                     Some (ListObj xs) \<Rightarrow>
                       if list_all (is_pharmacy h1) xs
                       then Inr (alloc h1 (ListObj (sorted_reverse (priority_at h1) xs)))
                       else Inl AttributeError
                   | _ \<Rightarrow> Inl TypeError))
      | _ \<Rightarrow> Inl TypeError)"

subsection \<open>Float operations without rounding\<close>

text \<open>
  \<open>exact_ops\<close> computes every operation on finite values exactly, as a real number, and
  treats infinities and NaN as IEEE 754 and \<open>math\<close> do (there is no signed zero).
  It stands for the doubles at concrete inputs where the values compared are the same.
\<close>

fun ex_neg :: "pyfloat \<Rightarrow> pyfloat" where
  "ex_neg (Fin a) = Fin (- a)"
| "ex_neg PosInf = NegInf"
| "ex_neg NegInf = PosInf"
| "ex_neg NaN = NaN"

fun ex_add :: "pyfloat \<Rightarrow> pyfloat \<Rightarrow> pyfloat" where
  "ex_add NaN y = NaN"
| "ex_add x NaN = NaN"
| "ex_add (Fin a) (Fin b) = Fin (a + b)"
| "ex_add PosInf NegInf = NaN"
| "ex_add NegInf PosInf = NaN"
| "ex_add PosInf y = PosInf"
| "ex_add x PosInf = PosInf"
| "ex_add NegInf y = NegInf"
| "ex_add x NegInf = NegInf"

definition ex_sub :: "pyfloat \<Rightarrow> pyfloat \<Rightarrow> pyfloat" where
  "ex_sub x y = ex_add x (ex_neg y)"

fun ex_mul :: "pyfloat \<Rightarrow> pyfloat \<Rightarrow> pyfloat" where
  "ex_mul NaN y = NaN"
| "ex_mul x NaN = NaN"
| "ex_mul (Fin a) (Fin b) = Fin (a * b)"
| "ex_mul (Fin a) PosInf = (if a = 0 then NaN else if 0 < a then PosInf else NegInf)"
| "ex_mul (Fin a) NegInf = (if a = 0 then NaN else if 0 < a then NegInf else PosInf)"
| "ex_mul PosInf (Fin b) = (if b = 0 then NaN else if 0 < b then PosInf else NegInf)"
| "ex_mul NegInf (Fin b) = (if b = 0 then NaN else if 0 < b then NegInf else PosInf)"
| "ex_mul PosInf PosInf = PosInf"
| "ex_mul PosInf NegInf = NegInf"
| "ex_mul NegInf PosInf = NegInf"
| "ex_mul NegInf NegInf = PosInf"

text \<open>The divisor is not zero.\<close>

fun ex_div :: "pyfloat \<Rightarrow> pyfloat \<Rightarrow> pyfloat" where
  "ex_div NaN y = NaN"
| "ex_div x NaN = NaN"
| "ex_div (Fin a) (Fin b) = Fin (a / b)"
| "ex_div (Fin a) y = Fin 0"
| "ex_div PosInf (Fin b) = (if 0 < b then PosInf else NegInf)"
| "ex_div NegInf (Fin b) = (if 0 < b then NegInf else PosInf)"
| "ex_div x y = NaN"

fun ex_sin :: "pyfloat \<Rightarrow> error + pyfloat" where
  "ex_sin (Fin x) = Inr (Fin (sin x))"
| "ex_sin NaN = Inr NaN"
| "ex_sin x = Inl ValueError"

fun ex_cos :: "pyfloat \<Rightarrow> error + pyfloat" where
  "ex_cos (Fin x) = Inr (Fin (cos x))"
| "ex_cos NaN = Inr NaN"
| "ex_cos x = Inl ValueError"

fun ex_sqrt :: "pyfloat \<Rightarrow> error + pyfloat" where
  "ex_sqrt (Fin x) = (if x < 0 then Inl ValueError else Inr (Fin (sqrt x)))"
| "ex_sqrt NaN = Inr NaN"
| "ex_sqrt PosInf = Inr PosInf"
| "ex_sqrt NegInf = Inl ValueError"

text \<open>\<open>math.atan2 y x\<close> on reals: the angle of the point \<open>(x, y)\<close>, in \<open>(-pi, pi]\<close>.\<close>

definition atan2 :: "real \<Rightarrow> real \<Rightarrow> real" where
  "atan2 y x =
     (if 0 < x then arctan (y / x)
      else if x < 0 \<and> 0 \<le> y then arctan (y / x) + pi
      else if x < 0 \<and> y < 0 then arctan (y / x) - pi
      else if 0 < y then pi / 2
      else if y < 0 then - (pi / 2)
      else 0)"

fun ex_atan2 :: "pyfloat \<Rightarrow> pyfloat \<Rightarrow> pyfloat" where
  "ex_atan2 NaN x = NaN"
| "ex_atan2 y NaN = NaN"
| "ex_atan2 (Fin y) (Fin x) = Fin (atan2 y x)"
| "ex_atan2 (Fin y) PosInf = Fin 0"
| "ex_atan2 (Fin y) NegInf = (if y < 0 then Fin (- pi) else Fin pi)"
| "ex_atan2 PosInf (Fin x) = Fin (pi / 2)"
| "ex_atan2 NegInf (Fin x) = Fin (- (pi / 2))"
| "ex_atan2 PosInf PosInf = Fin (pi / 4)"
| "ex_atan2 PosInf NegInf = Fin (3 * pi / 4)"
| "ex_atan2 NegInf PosInf = Fin (- (pi / 4))"
| "ex_atan2 NegInf NegInf = Fin (- (3 * pi / 4))"

text \<open>\<open>round\<close> to the nearest integer, ties to the even one, and \<open>round(x, 2)\<close>.\<close>

definition py_round :: "real \<Rightarrow> int" where
  "py_round x =
     (let f = \<lfloor>x\<rfloor>; d = x - real_of_int f
      in if d < 1 / 2 then f
         else if 1 / 2 < d then f + 1
         else if even f then f else f + 1)"

fun ex_round2 :: "pyfloat \<Rightarrow> pyfloat" where
  "ex_round2 (Fin x) = Fin (real_of_int (py_round (x * 100)) / 100)"
| "ex_round2 x = x"

text \<open>\<open>int(x)\<close> truncates towards zero, and raises on NaN and on an infinity.\<close>

fun ex_int :: "pyfloat \<Rightarrow> error + int" where
  "ex_int (Fin x) = Inr (if 0 \<le> x then \<lfloor>x\<rfloor> else \<lceil>x\<rceil>)"
| "ex_int NaN = Inl ValueError"
| "ex_int x = Inl OverflowError"

definition exact_ops :: float_ops where
  "exact_ops =
     \<lparr>f_lit = Fin,
      f_add = ex_add,
      f_sub = ex_sub,
      f_mul = ex_mul,
      f_div = ex_div,
      f_pow2 = (\<lambda>x. Inr (ex_mul x x)),
      f_radians = (\<lambda>x. ex_mul x (Fin (pi / 180))),
      f_sin = ex_sin,
      f_cos = ex_cos,
      f_sqrt = ex_sqrt,
      f_atan2 = ex_atan2,
      f_seconds = (\<lambda>us. Fin (real_of_int us / 1000000)),
      f_round2 = ex_round2,
      f_int = ex_int\<rparr>"

subsection \<open>Auxiliary functions of the proofs\<close>

text \<open>
  The haversine term, the distance and the score as real numbers: what the functions
  return under \<open>exact_ops\<close> on finite arguments.
\<close>

definition radians :: "real \<Rightarrow> real" where
  "radians x = x * (pi / 180)"

definition haversine_a :: "real \<Rightarrow> real \<Rightarrow> real \<Rightarrow> real \<Rightarrow> real" where
  "haversine_a lat1 lon1 lat2 lon2 =
     (sin ((lat2 - lat1) / 2))\<^sup>2 + cos lat1 * cos lat2 * (sin ((lon2 - lon1) / 2))\<^sup>2"

definition haversine_km :: "real \<Rightarrow> real \<Rightarrow> real \<Rightarrow> real \<Rightarrow> real" where
  "haversine_km lat1 lon1 lat2 lon2 =
     6371 * (2 * atan2 (sqrt (haversine_a (radians lat1) (radians lon1) (radians lat2) (radians lon2)))
                       (sqrt (1 - haversine_a (radians lat1) (radians lon1) (radians lat2) (radians lon2))))"

fun py_finite :: "pyfloat \<Rightarrow> bool" where
  "py_finite (Fin r) = True"
| "py_finite x = False"

text \<open>A pharmacy whose coordinates and priority are finite.\<close>

definition finite_pharmacy :: "Pharmacy \<Rightarrow> bool" where
  "finite_pharmacy p =
     (py_finite (latitude p) \<and> py_finite (longitude p) \<and> py_finite (priority p))"

text \<open>
  Every scoring call between two pharmacies of \<open>pts\<close> returns a score that is above
  \<open>-inf\<close>: nothing raises, and the score is neither NaN nor \<open>-inf\<close>.
\<close>

definition scores_above_neg_inf :: "float_ops \<Rightarrow> clock \<Rightarrow> weather \<Rightarrow> Pharmacy list \<Rightarrow> bool" where
  "scores_above_neg_inf F clk w pts =
     (\<forall>k. \<forall>cur\<in>set pts. \<forall>t\<in>set pts.
        \<exists>s. calculate_pharmacy_score F clk k cur t w = Inr (s, Suc k) \<and> py_gt s NegInf)"

text \<open>
  Rounding is monotone: adding a float on either side and multiplying by 10 never
  reverse the order of two floats (a comparison with NaN is false).
\<close>

definition monotone_ops :: "float_ops \<Rightarrow> bool" where
  "monotone_ops F =
     ((\<forall>c x y. \<not> py_lt y x \<longrightarrow> \<not> py_lt (f_add F c y) (f_add F c x))
      \<and> (\<forall>c x y. \<not> py_lt y x \<longrightarrow> \<not> py_lt (f_add F y c) (f_add F x c))
      \<and> (\<forall>x y. \<not> py_lt y x \<longrightarrow> \<not> py_lt (f_mul F y (Fin 10)) (f_mul F x (Fin 10))))"

text \<open>A latitude outside \<open>[-90, 90]\<close> or a longitude outside \<open>[-180, 180]\<close>.\<close>

definition out_of_range :: "Pharmacy \<Rightarrow> bool" where
  "out_of_range p =
     (py_lt (latitude p) (Fin (- 90)) \<or> py_gt (latitude p) (Fin 90)
      \<or> py_lt (longitude p) (Fin (- 180)) \<or> py_gt (longitude p) (Fin 180))"

text \<open>
  The number of clock readings of the \<open>while\<close> loop on \<open>n\<close> unvisited
  pharmacies when no round takes the \<open>break\<close> branch: each round scores every pharmacy
  still unvisited.
\<close>

fun clock_reads :: "nat \<Rightarrow> nat" where
  "clock_reads 0 = 0"
| "clock_reads (Suc n) = Suc n + clock_reads n"

text \<open>Everything of a pharmacy but its priority.\<close>

definition point_of ::
  "Pharmacy \<Rightarrow> string \<times> string \<times> pyfloat \<times> pyfloat \<times> (datetime \<times> datetime)" where
  "point_of p = (id_p p, name p, latitude p, longitude p, delivery_window p)"

text \<open>A pharmacy of the source's example run, for concrete instances.\<close>

definition example_pharmacy :: Pharmacy where
  "example_pharmacy =
     \<lparr>id_p = ''pharmacy_003'', name = ''Oka'', latitude = Fin 52.5, longitude = Fin 110.1,
      priority = Fin 9, delivery_window = (3600000000, 14400000000)\<rparr>"

text \<open>Two pharmacies that differ in id and name only.\<close>

definition tie_high :: Pharmacy where
  "tie_high =
     \<lparr>id_p = ''pharmacy_004'', name = ''North'', latitude = Fin 52.5, longitude = Fin 110.1,
      priority = Fin 6, delivery_window = (3600000000, 14400000000)\<rparr>"

definition tie_low :: Pharmacy where
  "tie_low =
     \<lparr>id_p = ''pharmacy_002'', name = ''South'', latitude = Fin 52.5, longitude = Fin 110.1,
      priority = Fin 6, delivery_window = (3600000000, 14400000000)\<rparr>"

text \<open>A pharmacy whose coordinates are no latitude and no longitude.\<close>

definition out_of_range_pharmacy :: Pharmacy where
  "out_of_range_pharmacy =
     \<lparr>id_p = ''pharmacy_007'', name = ''Nowhere'', latitude = Fin 91, longitude = Fin 200,
      priority = Fin 5, delivery_window = (3600000000, 14400000000)\<rparr>"

text \<open>The score of \<open>tie_high\<close> and of \<open>tie_low\<close> from the depot, one hour ahead.\<close>

definition tie_score :: pyfloat where
  "tie_score = Fin (100 / (haversine_km 52.0375 106.6522 52.5 110.1 + 1) + 60 + 45 + 30)"

text \<open>A pharmacy whose latitude is NaN.\<close>

definition nan_pharmacy :: Pharmacy where
  "nan_pharmacy =
     \<lparr>id_p = ''pharmacy_008'', name = ''Unlocated'', latitude = NaN, longitude = Fin 110.1,
      priority = Fin 5, delivery_window = (3600000000, 14400000000)\<rparr>"

text \<open>
  A pharmacy of the emergency zone \<open>pharmacy_001\<close> (multiplier 2.5), priority 3, at the
  coordinates of the depot.
\<close>

definition outbreak_pharmacy :: Pharmacy where
  "outbreak_pharmacy =
     \<lparr>id_p = ''pharmacy_001'', name = ''Central'', latitude = Fin 52.0375, longitude = Fin 106.6522,
      priority = Fin 3, delivery_window = (3600000000, 21600000000)\<rparr>"

text \<open>
  Two pharmacies at the depot's coordinates, and two clocks that start at the same
  instant and advance by one and by two microseconds per reading.
\<close>

definition soon_pharmacy :: Pharmacy where
  "soon_pharmacy =
     \<lparr>id_p = ''pharmacy_002'', name = ''Soon'', latitude = Fin 52.0375, longitude = Fin 106.6522,
      priority = Fin 5, delivery_window = (7200000004, 21600000000)\<rparr>"

definition later_pharmacy :: Pharmacy where
  "later_pharmacy =
     \<lparr>id_p = ''pharmacy_003'', name = ''Later'', latitude = Fin 52.0375, longitude = Fin 106.6522,
      priority = Fin 7, delivery_window = (360000000000, 400000000000)\<rparr>"

definition clock_fast :: clock where
  "clock_fast i = int i"

definition clock_slow :: clock where
  "clock_slow i = 2 * int i"

section \<open>Properties\<close>

subsection \<open>The order of floats\<close>

lemma py_lt_irrefl: "\<not> py_lt x x"
  by (cases x) simp_all

lemma py_lt_trans: "py_lt x y \<Longrightarrow> py_lt y z \<Longrightarrow> py_lt x z"
  by (cases x; cases y; cases z) simp_all

lemma py_lt_asym: "py_lt x y \<Longrightarrow> \<not> py_lt y x"
  by (cases x; cases y) simp_all

lemma py_lt_le_trans: "py_lt x y \<Longrightarrow> py_le y z \<Longrightarrow> py_lt x z"
  by (cases x; cases y; cases z) (auto simp: py_le_def)

lemma py_le_not_lt: "py_le x y \<Longrightarrow> \<not> py_lt y x"
  by (cases x; cases y) (auto simp: py_le_def)

lemma py_lt_not_le: "py_lt x y \<Longrightarrow> \<not> py_le y x"
  by (cases x; cases y) (simp_all add: py_le_def)

lemma py_gt_NegInf: "py_gt s NegInf \<longleftrightarrow> (\<exists>r. s = Fin r) \<or> s = PosInf"
  by (cases s) (simp_all add: py_gt_def)

subsection \<open>Selection\<close>

lemma calculate_time_urgency_snd: "snd (calculate_time_urgency F clk k p) = Suc k"
  by (simp add: calculate_time_urgency_def Let_def split: prod.splits)

lemma calculate_pharmacy_score_index:
  "calculate_pharmacy_score F clk k cur t w = Inr (s, k') \<Longrightarrow> k' = Suc k"
  using calculate_time_urgency_snd [of F clk k t]
  by (auto simp: calculate_pharmacy_score_def and_then_def Let_def
           split: sum.splits if_splits prod.splits)

lemma select_loop_char:
  assumes "\<forall>j<length cands. calculate_pharmacy_score F clk (k + j) cur (cands ! j) w = Inr (s j, Suc (k + j))"
  shows "\<exists>st'. select_loop F clk k cur cands w (b, bp) = Inr (st', k + length cands)
     \<and> ((st' = (b, bp) \<and> (\<forall>j<length cands. \<not> py_gt (s j) b))
        \<or> (\<exists>i<length cands.
              st' = (s i, Some (cands ! i)) \<and> py_gt (s i) b
              \<and> (\<forall>j<length cands. \<not> py_gt (s j) (s i))
              \<and> (\<forall>j<i. \<not> py_le (s i) (s j))))"
  using assms
proof (induction cands arbitrary: k s b bp)
  case Nil
  then show ?case by simp
next
  case (Cons p ps)
  define t where "t j = s (Suc j)" for j
  have first: "calculate_pharmacy_score F clk k cur p w = Inr (s 0, Suc k)"
    using Cons.prems by force
  have rest: "\<forall>j<length ps. calculate_pharmacy_score F clk (Suc k + j) cur (ps ! j) w
                = Inr (t j, Suc (Suc k + j))"
  proof (intro allI impI)
    fix j assume "j < length ps"
    then have "Suc j < length (p # ps)" by simp
    with Cons.prems have "calculate_pharmacy_score F clk (k + Suc j) cur ((p # ps) ! Suc j) w
                            = Inr (s (Suc j), Suc (k + Suc j))" by blast
    then show "calculate_pharmacy_score F clk (Suc k + j) cur (ps ! j) w = Inr (t j, Suc (Suc k + j))"
      by (simp add: t_def)
  qed
  show ?case
  proof (cases "py_gt (s 0) b")
    case True
    from Cons.IH [OF rest, of "s 0" "Some p"] obtain st' where
      run: "select_loop F clk (Suc k) cur ps w (s 0, Some p) = Inr (st', Suc k + length ps)"
      and alt: "(st' = (s 0, Some p) \<and> (\<forall>j<length ps. \<not> py_gt (t j) (s 0)))
        \<or> (\<exists>i<length ps. st' = (t i, Some (ps ! i)) \<and> py_gt (t i) (s 0)
              \<and> (\<forall>j<length ps. \<not> py_gt (t j) (t i)) \<and> (\<forall>j<i. \<not> py_le (t i) (t j)))"
      by blast
    have step: "select_loop F clk k cur (p # ps) w (b, bp) = Inr (st', k + length (p # ps))"
      using True run first by simp
    from alt show ?thesis
    proof
      assume a: "st' = (s 0, Some p) \<and> (\<forall>j<length ps. \<not> py_gt (t j) (s 0))"
      have all: "\<forall>j<length (p # ps). \<not> py_gt (s j) (s 0)"
      proof (intro allI impI)
        fix j assume "j < length (p # ps)"
        then show "\<not> py_gt (s j) (s 0)"
          using a by (cases j) (simp_all add: t_def py_gt_def py_lt_irrefl)
      qed
      have "0 < length (p # ps) \<and> st' = (s 0, Some ((p # ps) ! 0)) \<and> py_gt (s 0) b
            \<and> (\<forall>j<length (p # ps). \<not> py_gt (s j) (s 0)) \<and> (\<forall>j<0. \<not> py_le (s 0) (s j))"
        using a True all by simp
      then show ?thesis using step by blast
    next
      assume "\<exists>i<length ps. st' = (t i, Some (ps ! i)) \<and> py_gt (t i) (s 0)
              \<and> (\<forall>j<length ps. \<not> py_gt (t j) (t i)) \<and> (\<forall>j<i. \<not> py_le (t i) (t j))"
      then obtain i where i: "i < length ps" "st' = (t i, Some (ps ! i))" "py_gt (t i) (s 0)"
        "\<forall>j<length ps. \<not> py_gt (t j) (t i)" "\<forall>j<i. \<not> py_le (t i) (t j)"
        by blast
      have gt: "py_gt (s (Suc i)) b"
        using True i(3) by (auto simp: t_def py_gt_def intro: py_lt_trans)
      have all: "\<forall>j<length (p # ps). \<not> py_gt (s j) (s (Suc i))"
      proof (intro allI impI)
        fix j assume "j < length (p # ps)"
        then show "\<not> py_gt (s j) (s (Suc i))"
          using i by (cases j) (auto simp: t_def py_gt_def dest: py_lt_asym)
      qed
      have before: "\<forall>j<Suc i. \<not> py_le (s (Suc i)) (s j)"
      proof (intro allI impI)
        fix j assume "j < Suc i"
        then show "\<not> py_le (s (Suc i)) (s j)"
          using i by (cases j) (auto simp: t_def py_gt_def dest: py_lt_not_le)
      qed
      have "Suc i < length (p # ps) \<and> st' = (s (Suc i), Some ((p # ps) ! Suc i))"
        using i by (simp add: t_def)
      then show ?thesis using step gt all before by blast
    qed
  next
    case False
    from Cons.IH [OF rest, of b bp] obtain st' where
      run: "select_loop F clk (Suc k) cur ps w (b, bp) = Inr (st', Suc k + length ps)"
      and alt: "(st' = (b, bp) \<and> (\<forall>j<length ps. \<not> py_gt (t j) b))
        \<or> (\<exists>i<length ps. st' = (t i, Some (ps ! i)) \<and> py_gt (t i) b
              \<and> (\<forall>j<length ps. \<not> py_gt (t j) (t i)) \<and> (\<forall>j<i. \<not> py_le (t i) (t j)))"
      by blast
    have step: "select_loop F clk k cur (p # ps) w (b, bp) = Inr (st', k + length (p # ps))"
      using False run first by simp
    from alt show ?thesis
    proof
      assume a: "st' = (b, bp) \<and> (\<forall>j<length ps. \<not> py_gt (t j) b)"
      have all: "\<forall>j<length (p # ps). \<not> py_gt (s j) b"
      proof (intro allI impI)
        fix j assume "j < length (p # ps)"
        then show "\<not> py_gt (s j) b"
          using a False by (cases j) (simp_all add: t_def)
      qed
      then show ?thesis using step a by blast
    next
      assume "\<exists>i<length ps. st' = (t i, Some (ps ! i)) \<and> py_gt (t i) b
              \<and> (\<forall>j<length ps. \<not> py_gt (t j) (t i)) \<and> (\<forall>j<i. \<not> py_le (t i) (t j))"
      then obtain i where i: "i < length ps" "st' = (t i, Some (ps ! i))" "py_gt (t i) b"
        "\<forall>j<length ps. \<not> py_gt (t j) (t i)" "\<forall>j<i. \<not> py_le (t i) (t j)"
        by blast
      have zero_gt: "\<not> py_gt (s 0) (s (Suc i))"
      proof
        assume "py_gt (s 0) (s (Suc i))"
        with i(3) have "py_gt (s 0) b"
          by (auto simp: t_def py_gt_def intro: py_lt_trans)
        with False show False by simp
      qed
      have zero_le: "\<not> py_le (s (Suc i)) (s 0)"
      proof
        assume "py_le (s (Suc i)) (s 0)"
        with i(3) have "py_gt (s 0) b"
          by (auto simp: t_def py_gt_def intro: py_lt_le_trans)
        with False show False by simp
      qed
      have all: "\<forall>j<length (p # ps). \<not> py_gt (s j) (s (Suc i))"
      proof (intro allI impI)
        fix j assume "j < length (p # ps)"
        then show "\<not> py_gt (s j) (s (Suc i))"
          using i zero_gt by (cases j) (auto simp: t_def)
      qed
      have before: "\<forall>j<Suc i. \<not> py_le (s (Suc i)) (s j)"
      proof (intro allI impI)
        fix j assume "j < Suc i"
        then show "\<not> py_le (s (Suc i)) (s j)"
          using i zero_le by (cases j) (auto simp: t_def)
      qed
      have "Suc i < length (p # ps) \<and> st' = (s (Suc i), Some ((p # ps) ! Suc i))
            \<and> py_gt (s (Suc i)) b"
        using i by (simp add: t_def)
      then show ?thesis using step all before by blast
    qed
  qed
qed

lemma select_next_pharmacy_char:
  assumes "\<forall>j<length cands. calculate_pharmacy_score F clk (k + j) cur (cands ! j) w = Inr (s j, Suc (k + j))"
  shows "(select_next_pharmacy F clk k cur cands w = Inr (None, k + length cands)
           \<and> (\<forall>j<length cands. \<not> py_gt (s j) NegInf))
         \<or> (\<exists>i<length cands.
               select_next_pharmacy F clk k cur cands w = Inr (Some (cands ! i), k + length cands)
               \<and> py_gt (s i) NegInf
               \<and> (\<forall>j<length cands. \<not> py_gt (s j) (s i))
               \<and> (\<forall>j<i. \<not> py_le (s i) (s j)))"
proof -
  from select_loop_char [OF assms, of NegInf None] obtain st' where
    run: "select_loop F clk k cur cands w (NegInf, None) = Inr (st', k + length cands)"
    and alt: "(st' = (NegInf, None) \<and> (\<forall>j<length cands. \<not> py_gt (s j) NegInf))
        \<or> (\<exists>i<length cands. st' = (s i, Some (cands ! i)) \<and> py_gt (s i) NegInf
              \<and> (\<forall>j<length cands. \<not> py_gt (s j) (s i)) \<and> (\<forall>j<i. \<not> py_le (s i) (s j)))"
    by blast
  have sel: "select_next_pharmacy F clk k cur cands w = Inr (snd st', k + length cands)"
    using run by (simp add: select_next_pharmacy_def split: prod.splits)
  from alt show ?thesis
  proof
    assume "st' = (NegInf, None) \<and> (\<forall>j<length cands. \<not> py_gt (s j) NegInf)"
    then show ?thesis using sel by simp
  next
    assume "\<exists>i<length cands. st' = (s i, Some (cands ! i)) \<and> py_gt (s i) NegInf
              \<and> (\<forall>j<length cands. \<not> py_gt (s j) (s i)) \<and> (\<forall>j<i. \<not> py_le (s i) (s j))"
    then obtain i where "i < length cands" "st' = (s i, Some (cands ! i))" "py_gt (s i) NegInf"
      "\<forall>j<length cands. \<not> py_gt (s j) (s i)" "\<forall>j<i. \<not> py_le (s i) (s j)"
      by blast
    then show ?thesis using sel by auto
  qed
qed

text \<open>Whatever the scores are, a pharmacy that is selected is one of the candidates.\<close>

lemma select_loop_member:
  "select_loop F clk k cur cands w (b, bp) = Inr ((b', bp'), k') \<Longrightarrow>
     bp' = bp \<or> (\<exists>p\<in>set cands. bp' = Some p)"
proof (induction cands arbitrary: k b bp)
  case Nil
  then show ?case by simp
next
  case (Cons p ps)
  then show ?case
    by (fastforce split: sum.splits if_splits prod.splits)
qed

lemma select_next_pharmacy_member:
  "select_next_pharmacy F clk k cur cands w = Inr (Some p, k') \<Longrightarrow> p \<in> set cands"
  using select_loop_member [of F clk k cur cands w NegInf None]
  by (auto simp: select_next_pharmacy_def split: sum.splits prod.splits)

text \<open>An error of the selection is the error of a scoring call on a candidate.\<close>

lemma select_loop_error:
  "select_loop F clk k cur cands w st = Inl e \<Longrightarrow>
     \<exists>k'. \<exists>t\<in>set cands. calculate_pharmacy_score F clk k' cur t w = Inl e"
proof (induction cands arbitrary: k st)
  case Nil
  then show ?case by simp
next
  case (Cons p ps)
  obtain b bp where st: "st = (b, bp)" by (cases st)
  show ?case
  proof (cases "calculate_pharmacy_score F clk k cur p w")
    case (Inl e')
    with Cons.prems st have "e' = e" by simp
    with Inl show ?thesis by auto
  next
    case (Inr r)
    obtain sc k1 where r: "r = (sc, k1)" by (cases r)
    from Cons.prems st Inr r
    have "\<exists>st1. select_loop F clk k1 cur ps w st1 = Inl e"
      by (auto split: if_splits)
    then obtain st1 where "select_loop F clk k1 cur ps w st1 = Inl e" ..
    from Cons.IH [OF this] show ?thesis by auto
  qed
qed

lemma select_next_pharmacy_error:
  "select_next_pharmacy F clk k cur cands w = Inl e \<Longrightarrow>
     \<exists>k'. \<exists>t\<in>set cands. calculate_pharmacy_score F clk k' cur t w = Inl e"
  using select_loop_error [of F clk k cur cands w "(NegInf, None)" e]
  by (auto simp: select_next_pharmacy_def split: sum.splits prod.splits)

lemma select_next_pharmacy_Nil: "select_next_pharmacy F clk k cur [] w = Inr (None, k)"
  by (simp add: select_next_pharmacy_def)

text \<open>When every score is above \<open>-inf\<close>, a candidate is selected.\<close>

lemma select_next_pharmacy_some:
  assumes "cands \<noteq> []"
    and "\<forall>t\<in>set cands. \<forall>k. \<exists>s. calculate_pharmacy_score F clk k cur t w = Inr (s, Suc k) \<and> py_gt s NegInf"
  shows "\<exists>p\<in>set cands. select_next_pharmacy F clk k cur cands w = Inr (Some p, k + length cands)"
proof -
  have "\<forall>j. \<exists>s. j < length cands \<longrightarrow>
          calculate_pharmacy_score F clk (k + j) cur (cands ! j) w = Inr (s, Suc (k + j)) \<and> py_gt s NegInf"
    using assms(2) by (meson nth_mem)
  then have "\<exists>s. \<forall>j. j < length cands \<longrightarrow>
          calculate_pharmacy_score F clk (k + j) cur (cands ! j) w = Inr (s j, Suc (k + j)) \<and> py_gt (s j) NegInf"
    by (rule choice)
  then obtain s where s: "\<forall>j. j < length cands \<longrightarrow>
          calculate_pharmacy_score F clk (k + j) cur (cands ! j) w = Inr (s j, Suc (k + j)) \<and> py_gt (s j) NegInf"
    by blast
  then have sc: "\<forall>j<length cands. calculate_pharmacy_score F clk (k + j) cur (cands ! j) w = Inr (s j, Suc (k + j))"
    by blast
  have "0 < length cands" using assms(1) by simp
  with s have "py_gt (s 0) NegInf" by blast
  with \<open>0 < length cands\<close> have "\<not> (\<forall>j<length cands. \<not> py_gt (s j) NegInf)" by blast
  with select_next_pharmacy_char [OF sc] show ?thesis
    by (metis nth_mem)
qed

subsection \<open>The loop of the route\<close>

lemma route_loop_Nil: "route_loop F clk k w route [] = Inr (route, k)"
  by (simp add: route_loop.simps)

lemma route_loop_step:
  assumes "route \<noteq> []" "unvisited \<noteq> []"
    and "select_next_pharmacy F clk k (last route) unvisited w = Inr (Some p, k')"
  shows "route_loop F clk k w route unvisited
           = route_loop F clk k' w (route @ [p]) (remove1 p unvisited)"
  using assms select_next_pharmacy_member [OF assms(3)]
  by (subst route_loop.simps) simp

lemma route_loop_break:
  assumes "route \<noteq> []" "unvisited \<noteq> []"
    and "select_next_pharmacy F clk k (last route) unvisited w = Inr (None, k')"
  shows "route_loop F clk k w route unvisited = Inr (route, k')"
  using assms by (subst route_loop.simps) simp

lemma route_loop_raise:
  assumes "route \<noteq> []" "unvisited \<noteq> []"
    and "select_next_pharmacy F clk k (last route) unvisited w = Inl e"
  shows "route_loop F clk k w route unvisited = Inl e"
  using assms by (subst route_loop.simps) simp

lemma scores_above_neg_inf_mono:
  "scores_above_neg_inf F clk w pts \<Longrightarrow> set qs \<subseteq> set pts \<Longrightarrow> scores_above_neg_inf F clk w qs"
  unfolding scores_above_neg_inf_def by blast

lemma route_loop_visits_all:
  assumes "route \<noteq> []"
    and "scores_above_neg_inf F clk w (route @ unvisited)"
  shows "\<exists>visited. route_loop F clk k w route unvisited
                      = Inr (route @ visited, k + clock_reads (length unvisited))
                    \<and> mset visited = mset unvisited"
  using assms
proof (induction "length unvisited" arbitrary: k route unvisited)
  case 0
  then show ?case by (simp add: route_loop_Nil)
next
  case (Suc n)
  then have ne: "unvisited \<noteq> []" by auto
  have "last route \<in> set (route @ unvisited)" using Suc.prems(1) by simp
  with Suc.prems(2)
  have "\<forall>t\<in>set unvisited. \<forall>k. \<exists>s. calculate_pharmacy_score F clk k (last route) t w = Inr (s, Suc k)
          \<and> py_gt s NegInf"
    unfolding scores_above_neg_inf_def by auto
  from select_next_pharmacy_some [OF ne this] obtain p where
    p: "p \<in> set unvisited"
    and sel: "select_next_pharmacy F clk k (last route) unvisited w = Inr (Some p, k + length unvisited)"
    by blast
  have len: "n = length (remove1 p unvisited)"
    using p Suc.hyps(2) by (simp add: length_remove1)
  have "set ((route @ [p]) @ remove1 p unvisited) \<subseteq> set (route @ unvisited)"
    using p set_remove1_subset [of p unvisited] by auto
  with Suc.prems(2) have sc: "scores_above_neg_inf F clk w ((route @ [p]) @ remove1 p unvisited)"
    by (rule scores_above_neg_inf_mono)
  from Suc.hyps(1) [OF len _ sc, of "k + length unvisited"]
  obtain visited where
    run: "route_loop F clk (k + length unvisited) w (route @ [p]) (remove1 p unvisited)
            = Inr ((route @ [p]) @ visited, k + length unvisited + clock_reads n)"
    and ms: "mset visited = mset (remove1 p unvisited)"
    using len by auto
  have "route_loop F clk k w route unvisited = Inr (route @ (p # visited), k + clock_reads (length unvisited))"
    using route_loop_step [OF Suc.prems(1) ne sel] run Suc.hyps(2) [symmetric] by simp
  moreover have "mset (p # visited) = mset unvisited"
    using ms p by simp
  ultimately show ?case by blast
qed

text \<open>An error of the loop is the error of a scoring call on a pharmacy still unvisited.\<close>

lemma route_loop_error:
  assumes "route \<noteq> []"
    and "route_loop F clk k w route unvisited = Inl e"
  shows "\<exists>k' cur. \<exists>t\<in>set unvisited. calculate_pharmacy_score F clk k' cur t w = Inl e"
  using assms
proof (induction "length unvisited" arbitrary: k route unvisited)
  case 0
  then show ?case by (simp add: route_loop_Nil)
next
  case (Suc n)
  then have ne: "unvisited \<noteq> []" by auto
  show ?case
  proof (cases "select_next_pharmacy F clk k (last route) unvisited w")
    case (Inl e')
    with route_loop_raise [OF Suc.prems(1) ne Inl] Suc.prems(2) have "e' = e" by simp
    with select_next_pharmacy_error [OF Inl] show ?thesis by blast
  next
    case (Inr r)
    obtain sel k1 where r: "r = (sel, k1)" by (cases r)
    show ?thesis
    proof (cases sel)
      case None
      with route_loop_break [OF Suc.prems(1) ne] Inr r Suc.prems(2) show ?thesis by simp
    next
      case (Some p)
      with Inr r have sel: "select_next_pharmacy F clk k (last route) unvisited w = Inr (Some p, k1)"
        by simp
      have p: "p \<in> set unvisited" by (rule select_next_pharmacy_member [OF sel])
      have len: "n = length (remove1 p unvisited)"
        using p Suc.hyps(2) by (simp add: length_remove1)
      have "route_loop F clk k1 w (route @ [p]) (remove1 p unvisited) = Inl e"
        using route_loop_step [OF Suc.prems(1) ne sel] Suc.prems(2) by simp
      from Suc.hyps(1) [OF len _ this]
      obtain k' cur t where "t \<in> set (remove1 p unvisited)"
        "calculate_pharmacy_score F clk k' cur t w = Inl e"
        by auto
      then show ?thesis using set_remove1_subset [of p unvisited] by blast
    qed
  qed
qed

subsection \<open>The haversine formula over the reals\<close>

lemma haversine_a_sym: "haversine_a lat1 lon1 lat2 lon2 = haversine_a lat2 lon2 lat1 lon1"
proof -
  have s: "(sin ((x - y) / 2))\<^sup>2 = (sin ((y - x) / 2))\<^sup>2" for x y :: real
  proof -
    have "(x - y) / 2 = - ((y - x) / 2)" by argo
    then have "sin ((x - y) / 2) = - sin ((y - x) / 2)" by (simp only: sin_minus)
    then show ?thesis by simp
  qed
  have "(sin ((lat2 - lat1) / 2))\<^sup>2 = (sin ((lat1 - lat2) / 2))\<^sup>2"
    by (rule s)
  moreover have "(sin ((lon2 - lon1) / 2))\<^sup>2 = (sin ((lon1 - lon2) / 2))\<^sup>2"
    by (rule s)
  ultimately show ?thesis
    by (simp add: haversine_a_def Let_def mult.commute)
qed

lemma haversine_a_self: "haversine_a lat lon lat lon = 0"
  by (simp add: haversine_a_def)

text \<open>
  The term \<open>a\<close> is affine in \<open>t = sin\<^sup>2 (dlon / 2)\<close>, which lies in \<open>[0, 1]\<close>;
  at \<open>t = 0\<close> it is \<open>(1 - cos (lat2 - lat1)) / 2\<close> and at \<open>t = 1\<close> it is
  \<open>(1 + cos (lat1 + lat2)) / 2\<close>. Hence \<open>0 \<le> a \<le> 1\<close> for all arguments.
\<close>

lemma haversine_a_decomp:
  fixes lat1 lon1 lat2 lon2 :: real
  defines "t \<equiv> (sin ((lon2 - lon1) / 2))\<^sup>2"
  shows "haversine_a lat1 lon1 lat2 lon2 =
           (1 - t) * ((1 - cos (lat2 - lat1)) / 2) + t * ((1 + cos (lat1 + lat2)) / 2)"
proof -
  have "2 * ((lat2 - lat1) / 2) = lat2 - lat1" by simp
  then have "cos (lat2 - lat1) = 1 - 2 * (sin ((lat2 - lat1) / 2))\<^sup>2"
    using cos_double_sin [of "(lat2 - lat1) / 2"] by (simp only:)
  then have h: "(sin ((lat2 - lat1) / 2))\<^sup>2 = (1 - cos (lat2 - lat1)) / 2"
    by simp
  have c1: "cos (lat2 - lat1) = cos lat2 * cos lat1 + sin lat2 * sin lat1"
    by (rule cos_diff)
  have c2: "cos (lat1 + lat2) = cos lat1 * cos lat2 - sin lat1 * sin lat2"
    by (rule cos_add)
  show ?thesis
    unfolding haversine_a_def Let_def h t_def [symmetric] c1 c2
    by (simp add: field_simps)
qed

lemma haversine_a_nonneg: "0 \<le> haversine_a lat1 lon1 lat2 lon2"
proof -
  define t where "t = (sin ((lon2 - lon1) / 2))\<^sup>2"
  have t: "0 \<le> t" "t \<le> 1"
    unfolding t_def by (simp_all add: abs_square_le_1 abs_sin_le_one)
  have "0 \<le> (1 - t) * ((1 - cos (lat2 - lat1)) / 2)"
    using t by (intro mult_nonneg_nonneg) simp_all
  moreover have "0 \<le> t * ((1 + cos (lat1 + lat2)) / 2)"
  proof -
    have "- 1 \<le> cos (lat1 + lat2)" by (rule cos_ge_minus_one)
    then have "0 \<le> (1 + cos (lat1 + lat2)) / 2" by argo
    then show ?thesis using t by (intro mult_nonneg_nonneg)
  qed
  ultimately show ?thesis
    unfolding haversine_a_decomp t_def by linarith
qed

lemma haversine_a_le_one: "haversine_a lat1 lon1 lat2 lon2 \<le> 1"
proof -
  define t where "t = (sin ((lon2 - lon1) / 2))\<^sup>2"
  have t: "0 \<le> t" "t \<le> 1"
    unfolding t_def by (simp_all add: abs_square_le_1 abs_sin_le_one)
  have "(1 - cos (lat2 - lat1)) / 2 \<le> 1"
    using cos_ge_minus_one [of "lat2 - lat1"] by simp
  then have a: "(1 - t) * ((1 - cos (lat2 - lat1)) / 2) \<le> (1 - t) * 1"
    using t by (intro mult_left_mono) simp_all
  have "(1 + cos (lat1 + lat2)) / 2 \<le> 1"
    using cos_le_one [of "lat1 + lat2"] by simp
  then have b: "t * ((1 + cos (lat1 + lat2)) / 2) \<le> t * 1"
    using t by (intro mult_left_mono) simp_all
  have "(1 - t) * ((1 - cos (lat2 - lat1)) / 2) + t * ((1 + cos (lat1 + lat2)) / 2)
          \<le> (1 - t) * 1 + t * 1"
    by (rule add_mono [OF a b])
  then show ?thesis
    unfolding haversine_a_decomp t_def [symmetric] by simp
qed


lemma atan2_nonneg: "0 \<le> y \<Longrightarrow> 0 \<le> x \<Longrightarrow> 0 \<le> atan2 y x"
  by (auto simp: atan2_def zero_le_arctan_iff)

lemma haversine_km_nonneg: "0 \<le> haversine_km lat1 lon1 lat2 lon2"
proof -
  have "0 \<le> atan2 (sqrt (haversine_a (radians lat1) (radians lon1) (radians lat2) (radians lon2)))
                   (sqrt (1 - haversine_a (radians lat1) (radians lon1) (radians lat2) (radians lon2)))"
    using haversine_a_nonneg haversine_a_le_one by (intro atan2_nonneg) simp_all
  then show ?thesis by (simp add: haversine_km_def)
qed

lemma haversine_km_sym: "haversine_km lat1 lon1 lat2 lon2 = haversine_km lat2 lon2 lat1 lon1"
  unfolding haversine_km_def
  using haversine_a_sym [of "radians lat1" "radians lon1" "radians lat2" "radians lon2"] by simp

lemma haversine_km_self: "haversine_km lat lon lat lon = 0"
  by (simp add: haversine_km_def haversine_a_self atan2_def)


subsection \<open>The functions under exact operations\<close>

lemma haversine_term_exact:
  "haversine_term exact_ops (Fin lat1) (Fin lon1) (Fin lat2) (Fin lon2)
     = Inr (Fin (haversine_a lat1 lon1 lat2 lon2))"
  by (simp add: haversine_term_def exact_ops_def and_then_def ex_sub_def haversine_a_def
        power2_eq_square Let_def)

lemma great_circle_exact:
  assumes "0 \<le> a" "a \<le> 1"
  shows "great_circle exact_ops (Fin a) = Inr (Fin (6371 * (2 * atan2 (sqrt a) (sqrt (1 - a)))))"
  using assms by (simp add: great_circle_def exact_ops_def and_then_def ex_sub_def Let_def)

lemma calculate_distance_exact:
  "calculate_distance exact_ops (Fin lat1) (Fin lon1) (Fin lat2) (Fin lon2)
     = Inr (Fin (haversine_km lat1 lon1 lat2 lon2))"
proof -
  have r: "f_radians exact_ops (Fin x) = Fin (radians x)" for x
    by (simp add: exact_ops_def radians_def)
  show ?thesis
    unfolding calculate_distance_def r haversine_term_exact
    using great_circle_exact [OF haversine_a_nonneg haversine_a_le_one,
            of "radians lat1" "radians lon1" "radians lat2" "radians lon2"]
    by (simp add: and_then_def haversine_km_def)
qed

lemma py_finite_iff: "py_finite x \<longleftrightarrow> (\<exists>r. x = Fin r)"
  by (cases x) simp_all

lemma calculate_weather_impact_exact:
  "\<exists>r. calculate_weather_impact exact_ops w p = Fin r"
proof -
  have "py_finite (calculate_weather_impact exact_ops w p)"
    by (simp add: calculate_weather_impact_def exact_ops_def py_min_def Let_def)
  then show ?thesis by (simp add: py_finite_iff)
qed

lemma calculate_time_urgency_exact:
  "\<exists>r. calculate_time_urgency exact_ops clk k p = (Fin r, Suc k)"
  by (simp add: calculate_time_urgency_def Let_def split: prod.splits)

lemma calculate_pharmacy_score_exact:
  assumes "finite_pharmacy cur" "finite_pharmacy t"
  shows "\<exists>r. calculate_pharmacy_score exact_ops clk k cur t w = Inr (Fin r, Suc k)"
proof -
  from assms obtain clat clon tlat tlon tp where
    c: "latitude cur = Fin clat" "longitude cur = Fin clon"
    and t: "latitude t = Fin tlat" "longitude t = Fin tlon" "priority t = Fin tp"
    unfolding finite_pharmacy_def py_finite_iff by blast
  obtain wi where wi: "calculate_weather_impact exact_ops w t = Fin wi"
    using calculate_weather_impact_exact by blast
  obtain u where u: "calculate_time_urgency exact_ops clk k t = (Fin u, Suc k)"
    using calculate_time_urgency_exact by blast
  have d: "haversine_km clat clon tlat tlon + 1 \<noteq> 0"
    using haversine_km_nonneg [of clat clon tlat tlon] by simp
  have ops: "f_add exact_ops = ex_add" "f_sub exact_ops = ex_sub" "f_mul exact_ops = ex_mul"
    "f_div exact_ops = ex_div"
    by (simp_all add: exact_ops_def)
  show ?thesis
    unfolding calculate_pharmacy_score_def c t calculate_distance_exact wi u ops
    using d by (simp add: and_then_def ex_sub_def Let_def)
qed

lemma scores_above_neg_inf_exact:
  assumes "\<forall>p\<in>set pts. finite_pharmacy p"
  shows "scores_above_neg_inf exact_ops clk w pts"
  unfolding scores_above_neg_inf_def
proof (intro allI ballI)
  fix k cur t assume "cur \<in> set pts" "t \<in> set pts"
  with assms have "finite_pharmacy cur" "finite_pharmacy t" by blast+
  from calculate_pharmacy_score_exact [OF this, of clk k w]
  show "\<exists>s. calculate_pharmacy_score exact_ops clk k cur t w = Inr (s, Suc k) \<and> py_gt s NegInf"
    by (auto simp: py_gt_def)
qed

subsection \<open>Priority adjustment\<close>

lemma mset_sorted_reverse: "mset (sorted_reverse f xs) = mset xs"
  by (simp add: sorted_reverse_def)

lemma length_sorted_reverse: "length (sorted_reverse f xs) = length xs"
  by (simp add: sorted_reverse_def)

lemma set_sorted_reverse: "set (sorted_reverse f xs) = set xs"
  by (simp add: sorted_reverse_def)

lemma sort_rank_inj: "sort_rank x = sort_rank y \<longleftrightarrow> x = y"
  by (cases x; cases y) simp_all

lemma sort_rank_less: "x \<noteq> NaN \<Longrightarrow> y \<noteq> NaN \<Longrightarrow> sort_rank x < sort_rank y \<longleftrightarrow> py_lt x y"
  by (cases x; cases y) (simp_all add: less_prod_def)

lemma sorted_reverse_descending:
  assumes "\<forall>x\<in>set xs. f x \<noteq> NaN"
  shows "sorted_wrt (\<lambda>x y. \<not> py_lt (f x) (f y)) (sorted_reverse f xs)"
proof -
  have "sorted (map (\<lambda>x. sort_rank (f x)) (sort_key (\<lambda>x. sort_rank (f x)) (rev xs)))"
    by (rule sorted_sort_key)
  then have "sorted_wrt (\<lambda>x y. sort_rank (f x) \<le> sort_rank (f y)) (sort_key (\<lambda>x. sort_rank (f x)) (rev xs))"
    by (simp add: sorted_map)
  then have "sorted_wrt (\<lambda>x y. sort_rank (f y) \<le> sort_rank (f x)) (sorted_reverse f xs)"
    by (simp add: sorted_reverse_def sorted_wrt_rev)
  then show ?thesis
  proof (rule sorted_wrt_mono_rel [rotated])
    fix x y assume "x \<in> set (sorted_reverse f xs)" "y \<in> set (sorted_reverse f xs)"
      and le: "sort_rank (f y) \<le> sort_rank (f x)"
    then have "f x \<noteq> NaN" "f y \<noteq> NaN"
      using assms by (simp_all add: set_sorted_reverse)
    moreover from le have "\<not> sort_rank (f x) < sort_rank (f y)"
      by (simp add: not_less)
    ultimately show "\<not> py_lt (f x) (f y)"
      using sort_rank_less [of "f x" "f y"] by simp
  qed
qed

lemma sorted_reverse_stable:
  "filter (\<lambda>y. f y = v) (sorted_reverse f xs) = filter (\<lambda>y. f y = v) xs"
proof -
  have eq: "(\<lambda>y. f y = v) = (\<lambda>y. sort_rank (f y) = sort_rank v)"
    by (simp add: sort_rank_inj)
  have "filter (\<lambda>y. f y = v) (sorted_reverse f xs)
          = rev (filter (\<lambda>y. sort_rank (f y) = sort_rank v) (sort_key (\<lambda>x. sort_rank (f x)) (rev xs)))"
    by (simp add: sorted_reverse_def rev_filter eq)
  also have "\<dots> = rev (filter (\<lambda>y. sort_rank (f y) = sort_rank v) (rev xs))"
    by (simp only: sort_key_stable)
  also have "\<dots> = filter (\<lambda>y. f y = v) xs"
    by (simp add: rev_filter eq)
  finally show ?thesis .
qed

lemma boosted_pharmacy_update:
  "boosted_pharmacy F p
     = p\<lparr>priority := py_min (Fin 10) (f_mul F (priority p) (detect_emergency_situation F p))\<rparr>"
  by (simp add: boosted_pharmacy_def Let_def)

lemma point_of_boosted: "point_of (boosted_pharmacy F p) = point_of p"
  by (simp add: boosted_pharmacy_def point_of_def Let_def)

text \<open>An adjusted priority is never NaN and never above 10.\<close>

lemma py_min_ten: "py_min (Fin 10) x \<noteq> NaN \<and> \<not> py_lt (Fin 10) (py_min (Fin 10) x)"
  by (cases x) (simp_all add: py_min_def)

lemma boosted_priority:
  "priority (boosted_pharmacy F p) \<noteq> NaN \<and> \<not> py_lt (Fin 10) (priority (boosted_pharmacy F p))"
  using py_min_ten by (simp add: boosted_pharmacy_def Let_def)

lemma mset_apply_emergency_priority:
  "mset (apply_emergency_priority F ps) = mset (map (boosted_pharmacy F) ps)"
  by (simp add: apply_emergency_priority_def Let_def mset_sorted_reverse)

lemma set_apply_emergency_priority:
  "set (apply_emergency_priority F ps) = boosted_pharmacy F ` set ps"
  by (simp add: apply_emergency_priority_def Let_def set_sorted_reverse)

lemma length_apply_emergency_priority: "length (apply_emergency_priority F ps) = length ps"
  by (simp add: apply_emergency_priority_def Let_def length_sorted_reverse)

lemma mset_point_of_apply:
  "mset (map point_of (apply_emergency_priority F ps)) = mset (map point_of ps)"
proof -
  have "mset (map point_of (apply_emergency_priority F ps))
          = image_mset point_of (mset (apply_emergency_priority F ps))"
    by simp
  also have "\<dots> = image_mset point_of (mset (map (boosted_pharmacy F) ps))"
    by (simp only: mset_apply_emergency_priority)
  also have "\<dots> = mset (map point_of ps)"
    by (simp add: multiset.map_comp comp_def point_of_boosted)
  finally show ?thesis .
qed

subsection \<open>The route\<close>

lemma optimize_delivery_route_complete:
  assumes "pharmacies \<noteq> []"
    and "scores_above_neg_inf F clk w (depot F clk k # apply_emergency_priority F pharmacies)"
  shows "\<exists>middle. optimize_delivery_route F clk k pharmacies cap w
                     = Inr (depot F clk k # middle @ [depot F clk k],
                            k + 2 + clock_reads (length pharmacies))
                   \<and> mset middle = mset (map (boosted_pharmacy F) pharmacies)"
proof -
  have sc: "scores_above_neg_inf F clk w ([depot F clk k] @ apply_emergency_priority F pharmacies)"
    using assms(2) by simp
  from route_loop_visits_all [OF _ sc, of "Suc (Suc k)"]
  obtain visited where
    run: "route_loop F clk (Suc (Suc k)) w [depot F clk k] (apply_emergency_priority F pharmacies)
            = Inr ([depot F clk k] @ visited,
                   Suc (Suc k) + clock_reads (length (apply_emergency_priority F pharmacies)))"
    and ms: "mset visited = mset (apply_emergency_priority F pharmacies)"
    by auto
  have "optimize_delivery_route F clk k pharmacies cap w
          = Inr (depot F clk k # visited @ [depot F clk k], k + 2 + clock_reads (length pharmacies))"
    using assms(1) run
    by (simp add: optimize_delivery_route_def Let_def length_apply_emergency_priority)
  then show ?thesis
    using ms mset_apply_emergency_priority by metis
qed

lemma optimize_delivery_route_error:
  assumes "optimize_delivery_route F clk k pharmacies cap w = Inl e"
  shows "\<exists>k' cur. \<exists>t\<in>set (apply_emergency_priority F pharmacies).
           calculate_pharmacy_score F clk k' cur t w = Inl e"
proof -
  from assms have "route_loop F clk (Suc (Suc k)) w [depot F clk k] (apply_emergency_priority F pharmacies) = Inl e"
    by (auto simp: optimize_delivery_route_def Let_def split: if_splits sum.splits)
  from route_loop_error [OF _ this] show ?thesis by simp
qed

subsection \<open>Concrete inputs under exact operations\<close>

lemma exact_ops_simps:
  "f_lit exact_ops = Fin"
  "f_add exact_ops = ex_add"
  "f_sub exact_ops = ex_sub"
  "f_mul exact_ops = ex_mul"
  "f_div exact_ops = ex_div"
  "f_pow2 exact_ops = (\<lambda>x. Inr (ex_mul x x))"
  "f_radians exact_ops = (\<lambda>x. ex_mul x (Fin (pi / 180)))"
  "f_sin exact_ops = ex_sin"
  "f_cos exact_ops = ex_cos"
  "f_sqrt exact_ops = ex_sqrt"
  "f_atan2 exact_ops = ex_atan2"
  "f_seconds exact_ops = (\<lambda>us. Fin (real_of_int us / 1000000))"
  "f_round2 exact_ops = ex_round2"
  "f_int exact_ops = ex_int"
  by (simp_all add: exact_ops_def)

lemma finite_depot: "finite_pharmacy (depot exact_ops clk k)"
  by (simp add: finite_pharmacy_def depot_def exact_ops_simps)

lemma finite_boosted:
  assumes "finite_pharmacy p"
  shows "finite_pharmacy (boosted_pharmacy exact_ops p)"
proof -
  have "py_finite (detect_emergency_situation exact_ops p)"
    by (simp add: detect_emergency_situation_def emergency_zones_def exact_ops_simps)
  then obtain m where m: "detect_emergency_situation exact_ops p = Fin m"
    by (auto simp: py_finite_iff)
  from assms obtain x where "priority p = Fin x"
    unfolding finite_pharmacy_def py_finite_iff by blast
  then have "py_finite (priority (boosted_pharmacy exact_ops p))"
    by (simp add: boosted_pharmacy_def m exact_ops_simps py_min_def Let_def)
  then show ?thesis
    using assms by (simp add: finite_pharmacy_def boosted_pharmacy_def Let_def)
qed

lemma scores_above_neg_inf_finite:
  assumes "\<forall>p\<in>set pharmacies. finite_pharmacy p"
  shows "scores_above_neg_inf exact_ops clk w
           (depot exact_ops clk k # apply_emergency_priority exact_ops pharmacies)"
proof (rule scores_above_neg_inf_exact)
  show "\<forall>p\<in>set (depot exact_ops clk k # apply_emergency_priority exact_ops pharmacies). finite_pharmacy p"
    using assms finite_depot finite_boosted
    by (auto simp: set_apply_emergency_priority)
qed

lemma nan_score:
  "calculate_pharmacy_score exact_ops clk k (depot exact_ops clk' k') nan_pharmacy Map.empty
     = Inr (NaN, Suc k)"
  by (simp add: calculate_pharmacy_score_def calculate_distance_def haversine_term_def
        great_circle_def and_then_def exact_ops_simps ex_sub_def depot_def nan_pharmacy_def
        calculate_weather_impact_def calculate_time_urgency_def py_gt_def py_min_def Let_def)

lemma nan_pharmacy_boosted: "apply_emergency_priority exact_ops [nan_pharmacy] = [nan_pharmacy]"
  by (simp add: apply_emergency_priority_def sorted_reverse_def boosted_pharmacy_def
        detect_emergency_situation_def emergency_zones_def exact_ops_simps nan_pharmacy_def
        py_min_def Let_def)

lemma nan_select:
  "select_next_pharmacy exact_ops clk k (depot exact_ops clk' k') [nan_pharmacy] Map.empty
     = Inr (None, Suc k)"
  by (simp add: select_next_pharmacy_def nan_score py_gt_def)

lemma outbreak_pharmacy_boosted:
  "apply_emergency_priority exact_ops [outbreak_pharmacy]
     = [outbreak_pharmacy\<lparr>priority := Fin (15 / 2)\<rparr>]"
  by (simp add: apply_emergency_priority_def sorted_reverse_def boosted_pharmacy_def
        detect_emergency_situation_def emergency_zones_def exact_ops_simps outbreak_pharmacy_def
        py_min_def Let_def)

lemma tie_scores:
  "calculate_pharmacy_score exact_ops (\<lambda>i. 0) k (depot exact_ops (\<lambda>i. 0) 0) tie_high Map.empty
     = Inr (tie_score, Suc k)"
  "calculate_pharmacy_score exact_ops (\<lambda>i. 0) k (depot exact_ops (\<lambda>i. 0) 0) tie_low Map.empty
     = Inr (tie_score, Suc k)"
proof -
  have d: "haversine_km 52.0375 106.6522 52.5 110.1 + 1 \<noteq> 0"
    using haversine_km_nonneg [of "52.0375" "106.6522" "52.5" "110.1"] by simp
  have lits: "latitude (depot exact_ops (\<lambda>i. 0) 0) = Fin 52.0375"
    "longitude (depot exact_ops (\<lambda>i. 0) 0) = Fin 106.6522"
    by (simp_all add: depot_def exact_ops_simps)
  have w: "calculate_weather_impact exact_ops Map.empty tie_high = Fin (1 / 10)"
    "calculate_weather_impact exact_ops Map.empty tie_low = Fin (1 / 10)"
    by (simp_all add: calculate_weather_impact_def exact_ops_simps py_gt_def py_min_def
          tie_high_def tie_low_def Let_def)
  have u: "calculate_time_urgency exact_ops (\<lambda>i. 0) k tie_high = (Fin 30, Suc k)"
    "calculate_time_urgency exact_ops (\<lambda>i. 0) k tie_low = (Fin 30, Suc k)"
    by (simp_all add: calculate_time_urgency_def exact_ops_simps py_le_def
          tie_high_def tie_low_def Let_def)
  have c: "latitude tie_high = Fin 52.5" "longitude tie_high = Fin 110.1" "priority tie_high = Fin 6"
    "latitude tie_low = Fin 52.5" "longitude tie_low = Fin 110.1" "priority tie_low = Fin 6"
    by (simp_all add: tie_high_def tie_low_def)
  show "calculate_pharmacy_score exact_ops (\<lambda>i. 0) k (depot exact_ops (\<lambda>i. 0) 0) tie_high Map.empty
     = Inr (tie_score, Suc k)"
    unfolding calculate_pharmacy_score_def lits c calculate_distance_exact w u
    using d by (simp add: and_then_def exact_ops_simps ex_sub_def tie_score_def Let_def)
  show "calculate_pharmacy_score exact_ops (\<lambda>i. 0) k (depot exact_ops (\<lambda>i. 0) 0) tie_low Map.empty
     = Inr (tie_score, Suc k)"
    unfolding calculate_pharmacy_score_def lits c calculate_distance_exact w u
    using d by (simp add: and_then_def exact_ops_simps ex_sub_def tie_score_def Let_def)
qed

lemma tie_score_above: "py_gt tie_score NegInf"
  by (simp add: tie_score_def py_gt_def)

subsection \<open>The shape of the route\<close>

text \<open>
  C1, as stated, fails. A pharmacy whose latitude is NaN has the score NaN, which is not
  above \<open>-inf\<close>: nothing is selected, the loop takes the \<open>break\<close> branch, and the
  route of this input of one point is \<open>[depot, depot]\<close>, of length 2. And the point of
  the emergency zone \<open>pharmacy_001\<close> entered with priority 3 is not in its route: the
  route holds the adjusted copy, of priority 7.5.
\<close>

theorem optimize_delivery_route_shape_counterexample:
  "optimize_delivery_route exact_ops (\<lambda>i. 0) 0 [nan_pharmacy] 1000 Map.empty
     = Inr ([depot exact_ops (\<lambda>i. 0) 0, depot exact_ops (\<lambda>i. 0) 0], 3)
   \<and> optimize_delivery_route exact_ops (\<lambda>i. 0) 0 [outbreak_pharmacy] 1000 Map.empty
     = Inr ([depot exact_ops (\<lambda>i. 0) 0,
             outbreak_pharmacy\<lparr>priority := Fin (15 / 2)\<rparr>,
             depot exact_ops (\<lambda>i. 0) 0], 3)
   \<and> outbreak_pharmacy\<lparr>priority := Fin (15 / 2)\<rparr> \<noteq> outbreak_pharmacy"
proof (intro conjI)
  show "optimize_delivery_route exact_ops (\<lambda>i. 0) 0 [nan_pharmacy] 1000 Map.empty
     = Inr ([depot exact_ops (\<lambda>i. 0) 0, depot exact_ops (\<lambda>i. 0) 0], 3)"
    by (simp add: optimize_delivery_route_def nan_pharmacy_boosted route_loop.simps nan_select
          numeral_3_eq_3)
next
  have fin: "finite_pharmacy (depot exact_ops (\<lambda>i. 0) 0)"
    "finite_pharmacy (outbreak_pharmacy\<lparr>priority := Fin (15 / 2)\<rparr>)"
    by (simp_all add: finite_depot) (simp add: finite_pharmacy_def outbreak_pharmacy_def)
  from calculate_pharmacy_score_exact [OF fin, of "\<lambda>i. 0" "Suc (Suc 0)" Map.empty] obtain r where
    "calculate_pharmacy_score exact_ops (\<lambda>i. 0) (Suc (Suc 0)) (depot exact_ops (\<lambda>i. 0) 0)
       (outbreak_pharmacy\<lparr>priority := Fin (15 / 2)\<rparr>) Map.empty = Inr (Fin r, Suc (Suc (Suc 0)))"
    by blast
  then have sel: "select_next_pharmacy exact_ops (\<lambda>i. 0) (Suc (Suc 0)) (depot exact_ops (\<lambda>i. 0) 0)
       [outbreak_pharmacy\<lparr>priority := Fin (15 / 2)\<rparr>] Map.empty
       = Inr (Some (outbreak_pharmacy\<lparr>priority := Fin (15 / 2)\<rparr>), Suc (Suc (Suc 0)))"
    by (simp add: select_next_pharmacy_def py_gt_def)
  show "optimize_delivery_route exact_ops (\<lambda>i. 0) 0 [outbreak_pharmacy] 1000 Map.empty
     = Inr ([depot exact_ops (\<lambda>i. 0) 0,
             outbreak_pharmacy\<lparr>priority := Fin (15 / 2)\<rparr>,
             depot exact_ops (\<lambda>i. 0) 0], 3)"
    by (simp add: optimize_delivery_route_def outbreak_pharmacy_boosted route_loop.simps sel
          numeral_3_eq_3 Let_def)
next
  show "outbreak_pharmacy\<lparr>priority := Fin (15 / 2)\<rparr> \<noteq> outbreak_pharmacy"
    by (simp add: outbreak_pharmacy_def)
qed

text \<open>
  C1, amended. On the empty list, \<open>optimize_delivery_route\<close> returns the empty route,
  with no depot. On a non-empty list of \<open>n\<close> pharmacies, whenever every scoring call
  among the depot and the adjusted pharmacies returns a score above \<open>-inf\<close>, it
  returns a route of length \<open>n + 2\<close> that starts and ends with the depot; the elements
  between the two depots are the priority-adjusted copies (\<open>boosted_pharmacy\<close>) of the
  input pharmacies, each exactly once, hence with the ids, names, coordinates and delivery
  windows of the input. This holds for every float arithmetic \<open>F\<close>.
\<close>

theorem optimize_delivery_route_shape:
  "optimize_delivery_route F clk k [] cap w = Inr ([], k)
   \<and> (pharmacies \<noteq> []
        \<and> scores_above_neg_inf F clk w (depot F clk k # apply_emergency_priority F pharmacies) \<longrightarrow>
        (\<exists>middle. optimize_delivery_route F clk k pharmacies cap w
                     = Inr (depot F clk k # middle @ [depot F clk k],
                            k + 2 + clock_reads (length pharmacies))
                 \<and> length (depot F clk k # middle @ [depot F clk k]) = length pharmacies + 2
                 \<and> mset middle = mset (map (boosted_pharmacy F) pharmacies)
                 \<and> mset (map point_of middle) = mset (map point_of pharmacies)))"
proof (intro conjI impI)
  show "optimize_delivery_route F clk k [] cap w = Inr ([], k)"
    by (simp add: optimize_delivery_route_def)
next
  assume a: "pharmacies \<noteq> []
      \<and> scores_above_neg_inf F clk w (depot F clk k # apply_emergency_priority F pharmacies)"
  then have ne: "pharmacies \<noteq> []"
    and sc: "scores_above_neg_inf F clk w (depot F clk k # apply_emergency_priority F pharmacies)"
    by simp_all
  from optimize_delivery_route_complete [OF ne sc, of cap] obtain middle where
    run: "optimize_delivery_route F clk k pharmacies cap w
            = Inr (depot F clk k # middle @ [depot F clk k], k + 2 + clock_reads (length pharmacies))"
    and ms: "mset middle = mset (map (boosted_pharmacy F) pharmacies)"
    by blast
  from ms have "size (mset middle) = size (mset (map (boosted_pharmacy F) pharmacies))"
    by simp
  then have len: "length middle = length pharmacies" by simp
  have "mset (map point_of middle) = image_mset point_of (mset middle)"
    by simp
  also have "\<dots> = image_mset point_of (mset (map (boosted_pharmacy F) pharmacies))"
    by (simp only: ms)
  also have "\<dots> = mset (map point_of pharmacies)"
    by (simp add: multiset.map_comp comp_def point_of_boosted)
  finally have pts: "mset (map point_of middle) = mset (map point_of pharmacies)" .
  show "\<exists>middle. optimize_delivery_route F clk k pharmacies cap w
                     = Inr (depot F clk k # middle @ [depot F clk k],
                            k + 2 + clock_reads (length pharmacies))
                 \<and> length (depot F clk k # middle @ [depot F clk k]) = length pharmacies + 2
                 \<and> mset middle = mset (map (boosted_pharmacy F) pharmacies)
                 \<and> mset (map point_of middle) = mset (map point_of pharmacies)"
    using run ms len pts by auto
qed

theorem optimize_delivery_route_shape_witness:
  "[example_pharmacy] \<noteq> []
   \<and> scores_above_neg_inf exact_ops (\<lambda>i. 0) Map.empty
        (depot exact_ops (\<lambda>i. 0) 0 # apply_emergency_priority exact_ops [example_pharmacy])
   \<and> (\<exists>middle. optimize_delivery_route exact_ops (\<lambda>i. 0) 0 [example_pharmacy] 1000 Map.empty
                     = Inr (depot exact_ops (\<lambda>i. 0) 0 # middle @ [depot exact_ops (\<lambda>i. 0) 0],
                            0 + 2 + clock_reads (length [example_pharmacy]))
                 \<and> length (depot exact_ops (\<lambda>i. 0) 0 # middle @ [depot exact_ops (\<lambda>i. 0) 0])
                     = length [example_pharmacy] + 2
                 \<and> mset middle = mset (map (boosted_pharmacy exact_ops) [example_pharmacy])
                 \<and> mset (map point_of middle) = mset (map point_of [example_pharmacy]))"
proof -
  have ne: "[example_pharmacy] \<noteq> []" by simp
  have "\<forall>p\<in>set [example_pharmacy]. finite_pharmacy p"
    by (simp add: finite_pharmacy_def example_pharmacy_def)
  then have sc: "scores_above_neg_inf exact_ops (\<lambda>i. 0) Map.empty
        (depot exact_ops (\<lambda>i. 0) 0 # apply_emergency_priority exact_ops [example_pharmacy])"
    by (rule scores_above_neg_inf_finite)
  from optimize_delivery_route_shape [of exact_ops "\<lambda>i. 0" 0 1000 Map.empty "[example_pharmacy]"] ne sc
  show ?thesis by blast
qed

subsection \<open>When nothing is selected\<close>

text \<open>
  C9, as stated, fails: on the non-empty candidate list \<open>[nan_pharmacy]\<close> the score is
  NaN, \<open>score > best_score\<close> is false, \<open>_select_next_pharmacy\<close> returns \<open>None\<close>
  and the loop takes the \<open>break\<close> branch, leaving the candidate unvisited.
\<close>

theorem select_next_pharmacy_none_counterexample:
  "[nan_pharmacy] \<noteq> []
   \<and> select_next_pharmacy exact_ops (\<lambda>i. 0) 2 (depot exact_ops (\<lambda>i. 0) 0) [nan_pharmacy] Map.empty
       = Inr (None, 3)
   \<and> route_loop exact_ops (\<lambda>i. 0) 2 Map.empty [depot exact_ops (\<lambda>i. 0) 0] [nan_pharmacy]
       = Inr ([depot exact_ops (\<lambda>i. 0) 0], 3)"
  by (simp add: route_loop.simps nan_select numeral_3_eq_3)

text \<open>
  C9, amended. When no scoring call on the candidates raises,
  \<open>_select_next_pharmacy\<close> returns \<open>None\<close> exactly when no candidate has a score
  above \<open>-inf\<close> (each score is NaN or \<open>-inf\<close>, or the list is empty), and
  otherwise one of the candidates. On \<open>None\<close> the loop takes the \<open>break\<close> branch
  and returns the route built so far; when every scoring call among the pharmacies of the
  loop returns a score above \<open>-inf\<close>, the branch is never taken and the loop appends
  every unvisited pharmacy, each exactly once.
\<close>

theorem select_next_pharmacy_none_iff:
  assumes "\<forall>j<length candidates.
             calculate_pharmacy_score F clk (k + j) current (candidates ! j) w = Inr (s j, Suc (k + j))"
  shows "(\<exists>r. select_next_pharmacy F clk k current candidates w = Inr (r, k + length candidates)
            \<and> (r = None \<longleftrightarrow> (\<forall>j<length candidates. \<not> py_gt (s j) NegInf))
            \<and> (\<forall>p. r = Some p \<longrightarrow> p \<in> set candidates))
         \<and> (route \<noteq> [] \<and> unvisited \<noteq> []
              \<and> select_next_pharmacy F clk k' (last route) unvisited w = Inr (None, k'') \<longrightarrow>
              route_loop F clk k' w route unvisited = Inr (route, k''))
         \<and> (route \<noteq> [] \<and> scores_above_neg_inf F clk w (route @ unvisited) \<longrightarrow>
              (\<exists>visited. route_loop F clk k' w route unvisited
                            = Inr (route @ visited, k' + clock_reads (length unvisited))
                        \<and> mset visited = mset unvisited))"
proof (intro conjI impI)
  from select_next_pharmacy_char [OF assms]
  show "\<exists>r. select_next_pharmacy F clk k current candidates w = Inr (r, k + length candidates)
            \<and> (r = None \<longleftrightarrow> (\<forall>j<length candidates. \<not> py_gt (s j) NegInf))
            \<and> (\<forall>p. r = Some p \<longrightarrow> p \<in> set candidates)"
  proof
    assume "select_next_pharmacy F clk k current candidates w = Inr (None, k + length candidates)
           \<and> (\<forall>j<length candidates. \<not> py_gt (s j) NegInf)"
    then show ?thesis by simp
  next
    assume "\<exists>i<length candidates.
               select_next_pharmacy F clk k current candidates w
                 = Inr (Some (candidates ! i), k + length candidates)
               \<and> py_gt (s i) NegInf
               \<and> (\<forall>j<length candidates. \<not> py_gt (s j) (s i))
               \<and> (\<forall>j<i. \<not> py_le (s i) (s j))"
    then obtain i where i: "i < length candidates"
      "select_next_pharmacy F clk k current candidates w
         = Inr (Some (candidates ! i), k + length candidates)"
      "py_gt (s i) NegInf"
      by blast
    then have "\<not> (\<forall>j<length candidates. \<not> py_gt (s j) NegInf)" by blast
    with i show ?thesis by simp
  qed
next
  assume "route \<noteq> [] \<and> unvisited \<noteq> []
      \<and> select_next_pharmacy F clk k' (last route) unvisited w = Inr (None, k'')"
  then show "route_loop F clk k' w route unvisited = Inr (route, k'')"
    using route_loop_break by blast
next
  assume "route \<noteq> [] \<and> scores_above_neg_inf F clk w (route @ unvisited)"
  then show "\<exists>visited. route_loop F clk k' w route unvisited
                            = Inr (route @ visited, k' + clock_reads (length unvisited))
                        \<and> mset visited = mset unvisited"
    using route_loop_visits_all by blast
qed

theorem select_next_pharmacy_none_iff_witness:
  "calculate_pharmacy_score exact_ops (\<lambda>i. 0) (0 + 0) (depot exact_ops (\<lambda>i. 0) 0)
       ([tie_high, nan_pharmacy] ! 0) Map.empty = Inr (([tie_score, NaN] ! 0), Suc (0 + 0))
   \<and> calculate_pharmacy_score exact_ops (\<lambda>i. 0) (0 + 1) (depot exact_ops (\<lambda>i. 0) 0)
       ([tie_high, nan_pharmacy] ! 1) Map.empty = Inr (([tie_score, NaN] ! 1), Suc (0 + 1))
   \<and> length [tie_high, nan_pharmacy] = 2
   \<and> (\<exists>r. select_next_pharmacy exact_ops (\<lambda>i. 0) 0 (depot exact_ops (\<lambda>i. 0) 0)
              [tie_high, nan_pharmacy] Map.empty = Inr (r, 0 + length [tie_high, nan_pharmacy])
          \<and> (r = None \<longleftrightarrow> (\<forall>j<length [tie_high, nan_pharmacy].
                                 \<not> py_gt ([tie_score, NaN] ! j) NegInf))
          \<and> (\<forall>p. r = Some p \<longrightarrow> p \<in> set [tie_high, nan_pharmacy]))
   \<and> [depot exact_ops (\<lambda>i. 0) 0] \<noteq> [] \<and> [nan_pharmacy] \<noteq> []
   \<and> select_next_pharmacy exact_ops (\<lambda>i. 0) 2 (last [depot exact_ops (\<lambda>i. 0) 0]) [nan_pharmacy] Map.empty
       = Inr (None, 3)
   \<and> route_loop exact_ops (\<lambda>i. 0) 2 Map.empty [depot exact_ops (\<lambda>i. 0) 0] [nan_pharmacy]
       = Inr ([depot exact_ops (\<lambda>i. 0) 0], 3)
   \<and> scores_above_neg_inf exact_ops (\<lambda>i. 0) Map.empty ([depot exact_ops (\<lambda>i. 0) 0] @ [tie_high])
   \<and> (\<exists>visited. route_loop exact_ops (\<lambda>i. 0) 2 Map.empty [depot exact_ops (\<lambda>i. 0) 0] [tie_high]
                    = Inr ([depot exact_ops (\<lambda>i. 0) 0] @ visited, 2 + clock_reads (length [tie_high]))
                \<and> mset visited = mset [tie_high])"
proof -
  let ?s = "\<lambda>j. [tie_score, NaN] ! j"
  let ?d = "depot exact_ops (\<lambda>i. 0) 0"
  have s0: "calculate_pharmacy_score exact_ops (\<lambda>i. 0) (0 + 0) ?d ([tie_high, nan_pharmacy] ! 0) Map.empty
              = Inr (?s 0, Suc (0 + 0))"
    by (simp add: tie_scores)
  have s1: "calculate_pharmacy_score exact_ops (\<lambda>i. 0) (0 + 1) ?d ([tie_high, nan_pharmacy] ! 1) Map.empty
              = Inr (?s 1, Suc (0 + 1))"
    by (simp add: nan_score)
  have h: "\<forall>j<length [tie_high, nan_pharmacy].
             calculate_pharmacy_score exact_ops (\<lambda>i. 0) (0 + j) ?d ([tie_high, nan_pharmacy] ! j) Map.empty
               = Inr (?s j, Suc (0 + j))"
  proof (intro allI impI)
    fix j assume "j < length [tie_high, nan_pharmacy]"
    then have "j = 0 \<or> j = 1" by auto
    then show "calculate_pharmacy_score exact_ops (\<lambda>i. 0) (0 + j) ?d ([tie_high, nan_pharmacy] ! j) Map.empty
               = Inr (?s j, Suc (0 + j))"
      using s0 s1 by auto
  qed
  have sel: "select_next_pharmacy exact_ops (\<lambda>i. 0) 2 (last [?d]) [nan_pharmacy] Map.empty = Inr (None, 3)"
    by (simp add: nan_select numeral_3_eq_3)
  have "\<forall>p\<in>set ([?d] @ [tie_high]). finite_pharmacy p"
    by (simp add: finite_depot) (simp add: finite_pharmacy_def tie_high_def)
  then have sc: "scores_above_neg_inf exact_ops (\<lambda>i. 0) Map.empty ([?d] @ [tie_high])"
    by (rule scores_above_neg_inf_exact)
  have ne: "[?d] \<noteq> []" "[nan_pharmacy] \<noteq> []" by simp_all
  note inst = select_next_pharmacy_none_iff [OF h]
  from inst [of "[?d]" "[nan_pharmacy]" 2 3] ne sel
  have brk: "route_loop exact_ops (\<lambda>i. 0) 2 Map.empty [?d] [nan_pharmacy] = Inr ([?d], 3)"
    by blast
  from inst [of "[?d]" "[tie_high]" 2] ne sc
  have vis: "\<exists>visited. route_loop exact_ops (\<lambda>i. 0) 2 Map.empty [?d] [tie_high]
                    = Inr ([?d] @ visited, 2 + clock_reads (length [tie_high]))
                \<and> mset visited = mset [tie_high]"
    by blast
  from inst have char: "\<exists>r. select_next_pharmacy exact_ops (\<lambda>i. 0) 0 ?d
              [tie_high, nan_pharmacy] Map.empty = Inr (r, 0 + length [tie_high, nan_pharmacy])
          \<and> (r = None \<longleftrightarrow> (\<forall>j<length [tie_high, nan_pharmacy]. \<not> py_gt (?s j) NegInf))
          \<and> (\<forall>p. r = Some p \<longrightarrow> p \<in> set [tie_high, nan_pharmacy])"
    by blast
  have l: "length [tie_high, nan_pharmacy] = 2" by simp
  from s0 s1 l char ne sel brk sc vis show ?thesis by (intro conjI) assumption+
qed

subsection \<open>Ties between candidates\<close>

text \<open>
  C6, as stated, fails: \<open>tie_high\<close> and \<open>tie_low\<close> receive equal scores against
  the same current point and weather, \<open>tie_low\<close> has the lower id, and the candidate
  selected from \<open>[tie_high, tie_low]\<close> is \<open>tie_high\<close>. (The two pharmacies differ
  in id and name only, so their scores are equal in every float arithmetic.)
\<close>

theorem select_next_pharmacy_tie_counterexample:
  "calculate_pharmacy_score exact_ops (\<lambda>i. 0) 0 (depot exact_ops (\<lambda>i. 0) 0) tie_high Map.empty
     = calculate_pharmacy_score exact_ops (\<lambda>i. 0) 0 (depot exact_ops (\<lambda>i. 0) 0) tie_low Map.empty
   \<and> id_p tie_low < id_p tie_high
   \<and> select_next_pharmacy exact_ops (\<lambda>i. 0) 0 (depot exact_ops (\<lambda>i. 0) 0) [tie_high, tie_low] Map.empty
       = Inr (Some tie_high, 2)"
proof (intro conjI)
  show "calculate_pharmacy_score exact_ops (\<lambda>i. 0) 0 (depot exact_ops (\<lambda>i. 0) 0) tie_high Map.empty
     = calculate_pharmacy_score exact_ops (\<lambda>i. 0) 0 (depot exact_ops (\<lambda>i. 0) 0) tie_low Map.empty"
    by (simp add: tie_scores)
  show "id_p tie_low < id_p tie_high"
    by (simp add: tie_high_def tie_low_def)
  show "select_next_pharmacy exact_ops (\<lambda>i. 0) 0 (depot exact_ops (\<lambda>i. 0) 0) [tie_high, tie_low] Map.empty
       = Inr (Some tie_high, 2)"
    using tie_score_above
    by (simp add: select_next_pharmacy_def tie_scores py_gt_def py_lt_irrefl numeral_2_eq_2)
qed

text \<open>
  C6, amended. Ids are never compared. When no scoring call on the candidates raises and
  some candidate has a score above \<open>-inf\<close>, the candidate selected is the first one,
  in list order, whose computed score no other candidate's score exceeds (the \<open>j\<close>-th
  candidate being scored at the \<open>j\<close>-th clock reading of the call). So of two
  candidates with equal maximal scores the one earlier in the list is selected.
\<close>

theorem select_next_pharmacy_first_maximal:
  assumes "\<forall>j<length candidates.
             calculate_pharmacy_score F clk (k + j) current (candidates ! j) w = Inr (s j, Suc (k + j))"
    and "\<exists>j<length candidates. py_gt (s j) NegInf"
  shows "\<exists>i<length candidates.
           select_next_pharmacy F clk k current candidates w
             = Inr (Some (candidates ! i), k + length candidates)
           \<and> py_gt (s i) NegInf
           \<and> (\<forall>j<length candidates. \<not> py_gt (s j) (s i))
           \<and> (\<forall>j<i. \<not> py_le (s i) (s j))"
  using select_next_pharmacy_char [OF assms(1)] assms(2) by blast

theorem select_next_pharmacy_first_maximal_witness:
  "calculate_pharmacy_score exact_ops (\<lambda>i. 0) (0 + 0) (depot exact_ops (\<lambda>i. 0) 0)
       ([tie_high, tie_low] ! 0) Map.empty = Inr ([tie_score, tie_score] ! 0, Suc (0 + 0))
   \<and> calculate_pharmacy_score exact_ops (\<lambda>i. 0) (0 + 1) (depot exact_ops (\<lambda>i. 0) 0)
       ([tie_high, tie_low] ! 1) Map.empty = Inr ([tie_score, tie_score] ! 1, Suc (0 + 1))
   \<and> length [tie_high, tie_low] = 2
   \<and> (\<exists>j<length [tie_high, tie_low]. py_gt ([tie_score, tie_score] ! j) NegInf)
   \<and> (\<exists>i<length [tie_high, tie_low].
         select_next_pharmacy exact_ops (\<lambda>i. 0) 0 (depot exact_ops (\<lambda>i. 0) 0) [tie_high, tie_low] Map.empty
           = Inr (Some ([tie_high, tie_low] ! i), 0 + length [tie_high, tie_low])
         \<and> py_gt ([tie_score, tie_score] ! i) NegInf
         \<and> (\<forall>j<length [tie_high, tie_low]. \<not> py_gt ([tie_score, tie_score] ! j) ([tie_score, tie_score] ! i))
         \<and> (\<forall>j<i. \<not> py_le ([tie_score, tie_score] ! i) ([tie_score, tie_score] ! j)))"
proof -
  let ?s = "\<lambda>j. [tie_score, tie_score] ! j"
  let ?d = "depot exact_ops (\<lambda>i. 0) 0"
  have s0: "calculate_pharmacy_score exact_ops (\<lambda>i. 0) (0 + 0) ?d ([tie_high, tie_low] ! 0) Map.empty
              = Inr (?s 0, Suc (0 + 0))"
    by (simp add: tie_scores)
  have s1: "calculate_pharmacy_score exact_ops (\<lambda>i. 0) (0 + 1) ?d ([tie_high, tie_low] ! 1) Map.empty
              = Inr (?s 1, Suc (0 + 1))"
    by (simp add: tie_scores)
  have h: "\<forall>j<length [tie_high, tie_low].
             calculate_pharmacy_score exact_ops (\<lambda>i. 0) (0 + j) ?d ([tie_high, tie_low] ! j) Map.empty
               = Inr (?s j, Suc (0 + j))"
  proof (intro allI impI)
    fix j assume "j < length [tie_high, tie_low]"
    then have "j = 0 \<or> j = 1" by auto
    then show "calculate_pharmacy_score exact_ops (\<lambda>i. 0) (0 + j) ?d ([tie_high, tie_low] ! j) Map.empty
               = Inr (?s j, Suc (0 + j))"
      using s0 s1 by auto
  qed
  have e: "\<exists>j<length [tie_high, tie_low]. py_gt (?s j) NegInf"
    using tie_score_above by auto
  have l: "length [tie_high, tie_low] = 2" by simp
  note concl = select_next_pharmacy_first_maximal [OF h e]
  from s0 s1 l e concl show ?thesis by (intro conjI) assumption+
qed

subsection \<open>Coordinates out of range\<close>

text \<open>
  C5, as stated, fails: on a pharmacy at latitude 91 and longitude 200 the call does not
  fail; it scores the pharmacy and returns the route depot, pharmacy, depot.
\<close>

theorem optimize_delivery_route_out_of_range_counterexample:
  "py_gt (latitude out_of_range_pharmacy) (Fin 90)
   \<and> py_gt (longitude out_of_range_pharmacy) (Fin 180)
   \<and> optimize_delivery_route exact_ops (\<lambda>i. 0) 0 [out_of_range_pharmacy] 1000 Map.empty
       = Inr ([depot exact_ops (\<lambda>i. 0) 0, out_of_range_pharmacy, depot exact_ops (\<lambda>i. 0) 0], 3)"
proof (intro conjI)
  show "py_gt (latitude out_of_range_pharmacy) (Fin 90)"
    "py_gt (longitude out_of_range_pharmacy) (Fin 180)"
    by (simp_all add: out_of_range_pharmacy_def py_gt_def)
  have b: "apply_emergency_priority exact_ops [out_of_range_pharmacy] = [out_of_range_pharmacy]"
    by (simp add: apply_emergency_priority_def sorted_reverse_def boosted_pharmacy_def
          detect_emergency_situation_def emergency_zones_def exact_ops_simps
          out_of_range_pharmacy_def py_min_def Let_def)
  have fin: "finite_pharmacy (depot exact_ops (\<lambda>i. 0) 0)" "finite_pharmacy out_of_range_pharmacy"
    by (simp_all add: finite_depot) (simp add: finite_pharmacy_def out_of_range_pharmacy_def)
  from calculate_pharmacy_score_exact [OF fin, of "\<lambda>i. 0" "Suc (Suc 0)" Map.empty] obtain r where
    "calculate_pharmacy_score exact_ops (\<lambda>i. 0) (Suc (Suc 0)) (depot exact_ops (\<lambda>i. 0) 0)
       out_of_range_pharmacy Map.empty = Inr (Fin r, Suc (Suc (Suc 0)))"
    by blast
  then have sel: "select_next_pharmacy exact_ops (\<lambda>i. 0) (Suc (Suc 0)) (depot exact_ops (\<lambda>i. 0) 0)
       [out_of_range_pharmacy] Map.empty = Inr (Some out_of_range_pharmacy, Suc (Suc (Suc 0)))"
    by (simp add: select_next_pharmacy_def py_gt_def)
  show "optimize_delivery_route exact_ops (\<lambda>i. 0) 0 [out_of_range_pharmacy] 1000 Map.empty
       = Inr ([depot exact_ops (\<lambda>i. 0) 0, out_of_range_pharmacy, depot exact_ops (\<lambda>i. 0) 0], 3)"
    by (simp add: optimize_delivery_route_def b route_loop.simps sel numeral_3_eq_3 Let_def)
qed

text \<open>
  C5, amended. Coordinates are not validated: an input with a point whose latitude is
  outside \<open>[-90, 90]\<close> or whose longitude is outside \<open>[-180, 180]\<close> is not rejected
  when it is accepted. The point is scored like any other: the call fails only with the
  error that a scoring call on one of the adjusted pharmacies raises, and whenever every
  scoring call among the depot and the adjusted pharmacies returns a score above
  \<open>-inf\<close>, it returns a complete route of \<open>n + 2\<close> points with the adjusted copy
  of the out-of-range point in it.
\<close>

theorem optimize_delivery_route_no_validation:
  assumes "p \<in> set pharmacies" and "out_of_range p"
  shows "(\<forall>e. optimize_delivery_route F clk k pharmacies cap w = Inl e \<longrightarrow>
            (\<exists>k' cur. \<exists>t\<in>set (apply_emergency_priority F pharmacies).
                calculate_pharmacy_score F clk k' cur t w = Inl e))
         \<and> (scores_above_neg_inf F clk w (depot F clk k # apply_emergency_priority F pharmacies) \<longrightarrow>
              (\<exists>middle. optimize_delivery_route F clk k pharmacies cap w
                           = Inr (depot F clk k # middle @ [depot F clk k],
                                  k + 2 + clock_reads (length pharmacies))
                       \<and> length (depot F clk k # middle @ [depot F clk k]) = length pharmacies + 2
                       \<and> boosted_pharmacy F p \<in> set middle))"
proof (intro conjI allI impI)
  fix e assume "optimize_delivery_route F clk k pharmacies cap w = Inl e"
  then show "\<exists>k' cur. \<exists>t\<in>set (apply_emergency_priority F pharmacies).
                calculate_pharmacy_score F clk k' cur t w = Inl e"
    by (rule optimize_delivery_route_error)
next
  assume sc: "scores_above_neg_inf F clk w (depot F clk k # apply_emergency_priority F pharmacies)"
  from assms(1) have ne: "pharmacies \<noteq> []" by auto
  from optimize_delivery_route_complete [OF ne sc, of cap] obtain middle where
    run: "optimize_delivery_route F clk k pharmacies cap w
            = Inr (depot F clk k # middle @ [depot F clk k], k + 2 + clock_reads (length pharmacies))"
    and ms: "mset middle = mset (map (boosted_pharmacy F) pharmacies)"
    by blast
  from ms have "size (mset middle) = size (mset (map (boosted_pharmacy F) pharmacies))" by simp
  then have len: "length (depot F clk k # middle @ [depot F clk k]) = length pharmacies + 2" by simp
  from ms have "set middle = set (map (boosted_pharmacy F) pharmacies)"
    by (metis set_mset_mset)
  with assms(1) have "boosted_pharmacy F p \<in> set middle" by simp
  with run len
  show "\<exists>middle. optimize_delivery_route F clk k pharmacies cap w
                           = Inr (depot F clk k # middle @ [depot F clk k],
                                  k + 2 + clock_reads (length pharmacies))
                       \<and> length (depot F clk k # middle @ [depot F clk k]) = length pharmacies + 2
                       \<and> boosted_pharmacy F p \<in> set middle"
    by blast
qed

theorem optimize_delivery_route_no_validation_witness:
  "out_of_range_pharmacy \<in> set [out_of_range_pharmacy]
   \<and> out_of_range out_of_range_pharmacy
   \<and> scores_above_neg_inf exact_ops (\<lambda>i. 0) Map.empty
        (depot exact_ops (\<lambda>i. 0) 0 # apply_emergency_priority exact_ops [out_of_range_pharmacy])
   \<and> (\<exists>middle. optimize_delivery_route exact_ops (\<lambda>i. 0) 0 [out_of_range_pharmacy] 1000 Map.empty
                   = Inr (depot exact_ops (\<lambda>i. 0) 0 # middle @ [depot exact_ops (\<lambda>i. 0) 0],
                          0 + 2 + clock_reads (length [out_of_range_pharmacy]))
               \<and> length (depot exact_ops (\<lambda>i. 0) 0 # middle @ [depot exact_ops (\<lambda>i. 0) 0])
                   = length [out_of_range_pharmacy] + 2
               \<and> boosted_pharmacy exact_ops out_of_range_pharmacy \<in> set middle)"
proof -
  have m: "out_of_range_pharmacy \<in> set [out_of_range_pharmacy]" by simp
  have o: "out_of_range out_of_range_pharmacy"
    by (simp add: out_of_range_def out_of_range_pharmacy_def py_gt_def)
  have "\<forall>p\<in>set [out_of_range_pharmacy]. finite_pharmacy p"
    by (simp add: finite_pharmacy_def out_of_range_pharmacy_def)
  then have sc: "scores_above_neg_inf exact_ops (\<lambda>i. 0) Map.empty
        (depot exact_ops (\<lambda>i. 0) 0 # apply_emergency_priority exact_ops [out_of_range_pharmacy])"
    by (rule scores_above_neg_inf_finite)
  from optimize_delivery_route_no_validation [OF m o, of exact_ops "\<lambda>i. 0" 0 1000 Map.empty] sc
  have "\<exists>middle. optimize_delivery_route exact_ops (\<lambda>i. 0) 0 [out_of_range_pharmacy] 1000 Map.empty
                   = Inr (depot exact_ops (\<lambda>i. 0) 0 # middle @ [depot exact_ops (\<lambda>i. 0) 0],
                          0 + 2 + clock_reads (length [out_of_range_pharmacy]))
               \<and> length (depot exact_ops (\<lambda>i. 0) 0 # middle @ [depot exact_ops (\<lambda>i. 0) 0])
                   = length [out_of_range_pharmacy] + 2
               \<and> boosted_pharmacy exact_ops out_of_range_pharmacy \<in> set middle"
    by blast
  with m o sc show ?thesis by (intro conjI) assumption+
qed

subsection \<open>Monotonicity of the score in the priority\<close>

lemma monotone_ops_exact: "monotone_ops exact_ops"
proof -
  have a1: "\<not> py_lt y x \<Longrightarrow> \<not> py_lt (ex_add c y) (ex_add c x)" for c x y
    by (cases c; cases x; cases y) auto
  have a2: "\<not> py_lt y x \<Longrightarrow> \<not> py_lt (ex_add y c) (ex_add x c)" for c x y
    by (cases c; cases x; cases y) auto
  have m: "\<not> py_lt y x \<Longrightarrow> \<not> py_lt (ex_mul y (Fin 10)) (ex_mul x (Fin 10))" for x y
    by (cases x; cases y) auto
  from a1 a2 m show ?thesis
    unfolding monotone_ops_def exact_ops_simps by blast
qed

lemma calculate_pharmacy_score_priority:
  "calculate_pharmacy_score F clk k current (target\<lparr>priority := p\<rparr>) w =
     and_then (calculate_distance F (latitude current) (longitude current)
                                    (latitude target) (longitude target)) (\<lambda>distance.
       if py_eq (f_add F distance (Fin 1)) (Fin 0) then Inl ZeroDivisionError
       else Inr (f_add F (f_add F (f_add F (f_div F (Fin 100) (f_add F distance (Fin 1)))
                                           (f_mul F p (Fin 10)))
                                  (f_mul F (Fin 50) (f_sub F (Fin 1) (calculate_weather_impact F w target))))
                         (fst (calculate_time_urgency F clk k target)),
                 Suc k))"
proof -
  have w: "calculate_weather_impact F w (target\<lparr>priority := p\<rparr>) = calculate_weather_impact F w target"
    by (simp add: calculate_weather_impact_def)
  have u: "calculate_time_urgency F clk k (target\<lparr>priority := p\<rparr>) = calculate_time_urgency F clk k target"
    by (simp add: calculate_time_urgency_def)
  show ?thesis
    unfolding calculate_pharmacy_score_def w u
    by (cases "calculate_distance F (latitude current) (longitude current)
                 (latitude target) (longitude target)")
       (simp_all add: and_then_def Let_def split_beta calculate_time_urgency_snd)
qed

text \<open>
  C7. The priority enters the score through \<open>priority * 10\<close> only, which is added to
  the distance term, and the weather and urgency terms are added to the sum. With float
  addition and the multiplication by 10 monotone (as correctly rounded operations are),
  raising the priority of the candidate from \<open>p1\<close> to \<open>p2\<close>, all else fixed,
  changes neither whether the call raises nor the error, and never decreases the score.
\<close>

theorem calculate_pharmacy_score_mono_priority:
  assumes "monotone_ops F" and "py_le p1 p2"
  shows "(\<forall>e. calculate_pharmacy_score F clk k current (target\<lparr>priority := p1\<rparr>) w = Inl e
               \<longleftrightarrow> calculate_pharmacy_score F clk k current (target\<lparr>priority := p2\<rparr>) w = Inl e)
         \<and> (\<forall>s1 s2 k1 k2.
               calculate_pharmacy_score F clk k current (target\<lparr>priority := p1\<rparr>) w = Inr (s1, k1)
               \<and> calculate_pharmacy_score F clk k current (target\<lparr>priority := p2\<rparr>) w = Inr (s2, k2)
               \<longrightarrow> \<not> py_lt s2 s1)"
proof -
  from assms(2) have le: "\<not> py_lt p2 p1" by (rule py_le_not_lt)
  from assms(1) have
    addl: "\<And>c x y. \<not> py_lt y x \<Longrightarrow> \<not> py_lt (f_add F c y) (f_add F c x)" and
    addr: "\<And>c x y. \<not> py_lt y x \<Longrightarrow> \<not> py_lt (f_add F y c) (f_add F x c)" and
    mul: "\<And>x y. \<not> py_lt y x \<Longrightarrow> \<not> py_lt (f_mul F y (Fin 10)) (f_mul F x (Fin 10))"
    unfolding monotone_ops_def by blast+
  have tot: "\<not> py_lt (f_add F (f_add F (f_add F a (f_mul F p2 (Fin 10))) b) c)
                      (f_add F (f_add F (f_add F a (f_mul F p1 (Fin 10))) b) c)" for a b c
    by (intro addr addl mul le)
  show ?thesis
  proof (cases "calculate_distance F (latitude current) (longitude current)
                  (latitude target) (longitude target)")
    case (Inl e)
    then show ?thesis
      by (simp add: calculate_pharmacy_score_priority and_then_def)
  next
    case (Inr d)
    then show ?thesis
      using tot by (simp add: calculate_pharmacy_score_priority and_then_def)
  qed
qed

theorem calculate_pharmacy_score_mono_priority_witness:
  "monotone_ops exact_ops \<and> py_le (Fin 3) (Fin 8)
   \<and> (\<exists>s1 s2. calculate_pharmacy_score exact_ops (\<lambda>i. 0) 0 (depot exact_ops (\<lambda>i. 0) 0)
                  (example_pharmacy\<lparr>priority := Fin 3\<rparr>) Map.empty = Inr (s1, 1)
             \<and> calculate_pharmacy_score exact_ops (\<lambda>i. 0) 0 (depot exact_ops (\<lambda>i. 0) 0)
                  (example_pharmacy\<lparr>priority := Fin 8\<rparr>) Map.empty = Inr (s2, 1)
             \<and> \<not> py_lt s2 s1)"
proof -
  have le: "py_le (Fin 3) (Fin 8)" by (simp add: py_le_def)
  have fin: "finite_pharmacy (depot exact_ops (\<lambda>i. 0) 0)"
    "finite_pharmacy (example_pharmacy\<lparr>priority := Fin 3\<rparr>)"
    "finite_pharmacy (example_pharmacy\<lparr>priority := Fin 8\<rparr>)"
    by (simp_all add: finite_depot) (simp_all add: finite_pharmacy_def example_pharmacy_def)
  from calculate_pharmacy_score_exact [OF fin(1) fin(2), of "\<lambda>i. 0" 0 Map.empty] obtain r1 where
    r1: "calculate_pharmacy_score exact_ops (\<lambda>i. 0) 0 (depot exact_ops (\<lambda>i. 0) 0)
           (example_pharmacy\<lparr>priority := Fin 3\<rparr>) Map.empty = Inr (Fin r1, 1)"
    by auto
  from calculate_pharmacy_score_exact [OF fin(1) fin(3), of "\<lambda>i. 0" 0 Map.empty] obtain r2 where
    r2: "calculate_pharmacy_score exact_ops (\<lambda>i. 0) 0 (depot exact_ops (\<lambda>i. 0) 0)
           (example_pharmacy\<lparr>priority := Fin 8\<rparr>) Map.empty = Inr (Fin r2, 1)"
    by auto
  from calculate_pharmacy_score_mono_priority [OF monotone_ops_exact le,
      of "\<lambda>i. 0" 0 "depot exact_ops (\<lambda>i. 0) 0" example_pharmacy Map.empty] r1 r2
  have "\<not> py_lt (Fin r2) (Fin r1)" by blast
  with r1 r2 monotone_ops_exact le show ?thesis by blast
qed

subsection \<open>The domain of the distance\<close>

text \<open>
  C8. The last two lines of \<open>calculate_distance\<close> take \<open>sqrt(a)\<close> and
  \<open>sqrt(1 - a)\<close> of the haversine term \<open>a\<close>. In real arithmetic \<open>a\<close>
  lies in \<open>[0, 1]\<close> (lemmas \<open>haversine_a_nonneg\<close> and \<open>haversine_a_le_one\<close>);
  the rounded sum of rounded products need not. For the valid pair \<open>(-82, 0)\<close>,
  \<open>(82, -180)\<close> the double computed for \<open>a\<close> is \<open>1 + 2^-52\<close>, in both
  directions of the call, and for the depot and the point \<open>(127.9625, -73.3478)\<close> it is
  \<open>-2^-54\<close>. At either value the call raises \<open>ValueError\<close> instead of returning
  a distance.
\<close>

theorem great_circle_domain_error:
  "great_circle exact_ops (Fin (1 + 1 / 2 ^ 52)) = Inl ValueError
   \<and> great_circle exact_ops (Fin (- (1 / 2 ^ 54))) = Inl ValueError"
  by (simp add: great_circle_def exact_ops_simps ex_sub_def and_then_def)

subsection \<open>The adjusted priority\<close>

lemma apply_emergency_priority_descending_stable:
  "sorted_wrt (\<lambda>p q. \<not> py_lt (priority p) (priority q)) (apply_emergency_priority F pharmacies)
   \<and> (\<forall>v. filter (\<lambda>p. priority p = v) (apply_emergency_priority F pharmacies)
          = filter (\<lambda>p. priority p = v) (map (boosted_pharmacy F) pharmacies))"
proof -
  have "\<forall>x\<in>set (map (boosted_pharmacy F) pharmacies). priority x \<noteq> NaN"
    using boosted_priority by auto
  then show ?thesis
    unfolding apply_emergency_priority_def Let_def
    by (simp add: sorted_reverse_descending sorted_reverse_stable)
qed

text \<open>
  C2. The adjusted priority is \<open>min(10, priority * multiplier)\<close>: the product is not
  rounded. For pharmacy_001 (multiplier 2.5) with priority 3 the adjusted priority is 7.5,
  where \<open>min(10, round(priority * multiplier))\<close> is 8.
\<close>

theorem apply_emergency_priority_not_rounded:
  "map priority (apply_emergency_priority exact_ops [outbreak_pharmacy]) = [Fin (15 / 2)]
   \<and> py_min (Fin 10) (Fin (real_of_int (py_round (3 * (5 / 2))))) = Fin 8"
proof
  show "map priority (apply_emergency_priority exact_ops [outbreak_pharmacy]) = [Fin (15 / 2)]"
    by (simp add: outbreak_pharmacy_boosted)
  have "\<lfloor>15 / 2 :: real\<rfloor> = 7" by linarith
  then have "py_round (3 * (5 / 2)) = 8"
    by (simp add: py_round_def Let_def)
  then show "py_min (Fin 10) (Fin (real_of_int (py_round (3 * (5 / 2))))) = Fin 8"
    by (simp add: py_min_def)
qed

subsection \<open>The stop count of the report\<close>

lemma generate_route_report_count:
  assumes "generate_route_report F clk k route = Inr (r, k')"
  shows "pharmacy_count r = int (length route) - 2"
  using assms
  by (auto simp: generate_route_report_def and_then_def split: sum.splits prod.splits)

text \<open>
  C4. The stop count is \<open>len(route) - 2\<close> on every route
  (lemma \<open>generate_route_report_count\<close>), also on the empty route, whose report has
  the stop count \<open>-2\<close> and not 0.
\<close>

theorem generate_route_report_empty_route:
  "generate_route_report F clk k [] =
     Inr (\<lparr>route_id = clk k div 1000000,
           total_distance_km = PyInt 0,
           total_duration_min = 0,
           pharmacy_count = - 2,
           segments = [],
           estimated_fuel_consumption = f_round2 F (f_mul F (Fin 0) (f_lit F 0.12)),
           generated_at = clk (Suc k)\<rparr>, Suc (Suc k))
   \<and> f_round2 exact_ops (f_mul exact_ops (Fin 0) (f_lit exact_ops 0.12)) = Fin 0"
  by (simp add: generate_route_report_def and_then_def num_round2_def num_int_def num_float_def
        exact_ops_simps py_round_def)

subsection \<open>Dependence on the clock\<close>

lemma clock_reads_closed_form: "clock_reads n = n * (n + 1) div 2"
  by (induction n) auto

lemma calculate_pharmacy_score_clock:
  "clk1 k = clk2 k \<Longrightarrow>
     calculate_pharmacy_score F clk1 k cur t w = calculate_pharmacy_score F clk2 k cur t w"
proof -
  assume "clk1 k = clk2 k"
  then have "calculate_time_urgency F clk1 k t = calculate_time_urgency F clk2 k t"
    by (simp add: calculate_time_urgency_def)
  then show ?thesis
    by (simp only: calculate_pharmacy_score_def)
qed

lemma select_loop_index:
  "select_loop F clk k cur cands w st = Inr (st', k') \<Longrightarrow> k' = k + length cands"
proof (induction cands arbitrary: k st)
  case Nil
  then show ?case by simp
next
  case (Cons p ps)
  obtain b bp where st: "st = (b, bp)" by (cases st)
  from Cons.prems obtain s where
    sc: "calculate_pharmacy_score F clk k cur p w = Inr (s, Suc k)"
    unfolding st
    by (auto split: sum.splits prod.splits dest: calculate_pharmacy_score_index)
  from Cons.prems have "k' = Suc k + length ps"
    unfolding st by (auto simp: sc split: if_splits dest: Cons.IH)
  then show ?case by simp
qed

lemma select_next_pharmacy_index:
  "select_next_pharmacy F clk k cur cands w = Inr (r, k') \<Longrightarrow> k' = k + length cands"
  unfolding select_next_pharmacy_def
  by (auto split: sum.splits prod.splits dest: select_loop_index)

lemma select_loop_clock:
  "\<forall>i<length cands. clk1 (k + i) = clk2 (k + i) \<Longrightarrow>
     select_loop F clk1 k cur cands w st = select_loop F clk2 k cur cands w st"
proof (induction cands arbitrary: k st)
  case Nil
  then show ?case by simp
next
  case (Cons p ps)
  obtain b bp where st: "st = (b, bp)" by (cases st)
  from Cons.prems have here: "clk1 k = clk2 k" by force
  have rest: "\<forall>i<length ps. clk1 (Suc k + i) = clk2 (Suc k + i)"
  proof (intro allI impI)
    fix i assume "i < length ps"
    then have "Suc i < length (p # ps)" by simp
    with Cons.prems have "clk1 (k + Suc i) = clk2 (k + Suc i)" by blast
    then show "clk1 (Suc k + i) = clk2 (Suc k + i)" by simp
  qed
  have sc: "calculate_pharmacy_score F clk1 k cur p w = calculate_pharmacy_score F clk2 k cur p w"
    using here by (rule calculate_pharmacy_score_clock)
  show ?case
  proof (cases "calculate_pharmacy_score F clk2 k cur p w")
    case (Inl e)
    then show ?thesis unfolding st by (simp add: sc)
  next
    case (Inr r)
    obtain s k' where r: "r = (s, k')" by (cases r)
    from Inr have k': "k' = Suc k"
      unfolding r by (rule calculate_pharmacy_score_index)
    show ?thesis
      unfolding st using Inr by (simp add: sc r k' Cons.IH [OF rest])
  qed
qed

lemma select_next_pharmacy_clock:
  "\<forall>i<length cands. clk1 (k + i) = clk2 (k + i) \<Longrightarrow>
     select_next_pharmacy F clk1 k cur cands w = select_next_pharmacy F clk2 k cur cands w"
  unfolding select_next_pharmacy_def
  using select_loop_clock [of cands clk1 k clk2 F cur w "(NegInf, None)"] by simp

lemma route_loop_clock:
  assumes "\<forall>i<clock_reads (length unvisited). clk1 (k + i) = clk2 (k + i)"
  shows "route_loop F clk1 k w route unvisited = route_loop F clk2 k w route unvisited"
  using assms
proof (induction "length unvisited" arbitrary: k route unvisited)
  case 0
  then show ?case by (simp add: route_loop_Nil)
next
  case (Suc n)
  then have ne: "unvisited \<noteq> []" by auto
  have len: "length unvisited = Suc n" using Suc.hyps(2) by simp
  have agree: "\<forall>i<length unvisited. clk1 (k + i) = clk2 (k + i)"
    using Suc.prems by (simp add: len)
  note sel = select_next_pharmacy_clock [OF agree, of F "last route" w]
  show ?case
  proof (cases "route = []")
    case True
    then show ?thesis using ne by (simp add: route_loop.simps)
  next
    case route: False
    show ?thesis
    proof (cases "select_next_pharmacy F clk2 k (last route) unvisited w")
      case (Inl e)
      with sel have "select_next_pharmacy F clk1 k (last route) unvisited w = Inl e" by simp
      then show ?thesis
        using route_loop_raise [OF route ne] Inl by simp
    next
      case (Inr r)
      obtain q k' where r: "r = (q, k')" by (cases r)
      from Inr have k': "k' = k + length unvisited"
        unfolding r by (rule select_next_pharmacy_index)
      show ?thesis
      proof (cases q)
        case None
        with Inr r sel have "select_next_pharmacy F clk1 k (last route) unvisited w = Inr (None, k')"
          "select_next_pharmacy F clk2 k (last route) unvisited w = Inr (None, k')"
          by simp_all
        then show ?thesis
          using route_loop_break [OF route ne] by simp
      next
        case (Some p)
        with Inr r sel have
          sel1: "select_next_pharmacy F clk1 k (last route) unvisited w = Inr (Some p, k')" and
          sel2: "select_next_pharmacy F clk2 k (last route) unvisited w = Inr (Some p, k')"
          by simp_all
        from sel2 have p: "p \<in> set unvisited" by (rule select_next_pharmacy_member)
        have len': "n = length (remove1 p unvisited)"
          using p len by (simp add: length_remove1)
        have rest: "\<forall>i<clock_reads (length (remove1 p unvisited)). clk1 (k' + i) = clk2 (k' + i)"
        proof (intro allI impI)
          fix i assume "i < clock_reads (length (remove1 p unvisited))"
          then have "length unvisited + i < clock_reads (length unvisited)"
            using len len' by simp
          with Suc.prems have "clk1 (k + (length unvisited + i)) = clk2 (k + (length unvisited + i))"
            by blast
          then show "clk1 (k' + i) = clk2 (k' + i)"
            by (simp add: k' add.assoc)
        qed
        have "route_loop F clk1 k' w (route @ [p]) (remove1 p unvisited)
                = route_loop F clk2 k' w (route @ [p]) (remove1 p unvisited)"
          by (rule Suc.hyps(1) [OF len' rest])
        then show ?thesis
          using route_loop_step [OF route ne sel1] route_loop_step [OF route ne sel2] by simp
      qed
    qed
  qed
qed

lemma clock_example_scores:
  "calculate_pharmacy_score exact_ops clock_fast 2 (depot exact_ops clk 0) later_pharmacy Map.empty
     = Inr (Fin 220, 3)"
  "calculate_pharmacy_score exact_ops clock_fast 3 (depot exact_ops clk 0) soon_pharmacy Map.empty
     = Inr (Fin 210, 4)"
  "calculate_pharmacy_score exact_ops clock_slow 2 (depot exact_ops clk 0) later_pharmacy Map.empty
     = Inr (Fin 220, 3)"
  "calculate_pharmacy_score exact_ops clock_slow 3 (depot exact_ops clk 0) soon_pharmacy Map.empty
     = Inr (Fin 225, 4)"
  unfolding calculate_pharmacy_score_def depot_def soon_pharmacy_def later_pharmacy_def
  by (simp_all add: exact_ops_simps calculate_distance_exact haversine_km_self and_then_def
        calculate_weather_impact_def calculate_time_urgency_def py_gt_def py_le_def py_min_def
        ex_sub_def clock_fast_def clock_slow_def Let_def)

text \<open>
  C3, as stated, fails: two runs on the same points and the same weather, started at the
  same instant, return different routes when their clocks differ at a later scoring step.
  The window of \<open>soon_pharmacy\<close> starts 2 h and 4 microseconds after the start;
  at its first scoring (the fourth reading) it is more than 2 h away on the fast clock
  (urgency 15, score 210 against 220) and less than 2 h away on the slow one (urgency 30,
  score 225 against 220).
\<close>

theorem optimize_delivery_route_clock_counterexample:
  "clock_fast 0 = clock_slow 0
   \<and> optimize_delivery_route exact_ops clock_fast 0 [soon_pharmacy, later_pharmacy] 1000 Map.empty
       = Inr ([depot exact_ops clock_fast 0, later_pharmacy, soon_pharmacy, depot exact_ops clock_fast 0], 5)
   \<and> optimize_delivery_route exact_ops clock_slow 0 [soon_pharmacy, later_pharmacy] 1000 Map.empty
       = Inr ([depot exact_ops clock_slow 0, soon_pharmacy, later_pharmacy, depot exact_ops clock_slow 0], 5)"
proof (intro conjI)
  show "clock_fast 0 = clock_slow 0"
    by (simp add: clock_fast_def clock_slow_def)
  have b: "apply_emergency_priority exact_ops [soon_pharmacy, later_pharmacy]
             = [later_pharmacy, soon_pharmacy]"
    by (simp add: apply_emergency_priority_def sorted_reverse_def boosted_pharmacy_def
          detect_emergency_situation_def emergency_zones_def exact_ops_simps
          soon_pharmacy_def later_pharmacy_def py_min_def Let_def less_prod_def less_eq_prod_def)
  have fin: "finite_pharmacy soon_pharmacy" "finite_pharmacy later_pharmacy"
    by (simp_all add: finite_pharmacy_def soon_pharmacy_def later_pharmacy_def)
  have last: "\<exists>r. calculate_pharmacy_score exact_ops clk (Suc (Suc (Suc (Suc 0)))) cur t Map.empty
                    = Inr (Fin r, Suc (Suc (Suc (Suc (Suc 0)))))"
    if "finite_pharmacy cur" "finite_pharmacy t" for clk cur t
    using calculate_pharmacy_score_exact [OF that] by simp
  have one: "select_next_pharmacy exact_ops clk (Suc (Suc (Suc (Suc 0)))) cur [t] Map.empty
               = Inr (Some t, Suc (Suc (Suc (Suc (Suc 0)))))"
    if "finite_pharmacy cur" "finite_pharmacy t" for clk cur t
    using last [OF that, of clk] by (auto simp: select_next_pharmacy_def py_gt_def)
  have sf: "select_next_pharmacy exact_ops clock_fast (Suc (Suc 0)) (depot exact_ops clock_fast 0)
              [later_pharmacy, soon_pharmacy] Map.empty = Inr (Some later_pharmacy, Suc (Suc (Suc (Suc 0))))"
    using clock_example_scores(1,2) [of clock_fast]
    by (simp add: select_next_pharmacy_def py_gt_def numeral_2_eq_2 numeral_3_eq_3 eval_nat_numeral)
  have ss: "select_next_pharmacy exact_ops clock_slow (Suc (Suc 0)) (depot exact_ops clock_slow 0)
              [later_pharmacy, soon_pharmacy] Map.empty = Inr (Some soon_pharmacy, Suc (Suc (Suc (Suc 0))))"
    using clock_example_scores(3,4) [of clock_slow]
    by (simp add: select_next_pharmacy_def py_gt_def numeral_2_eq_2 numeral_3_eq_3 eval_nat_numeral)
  have ne: "later_pharmacy \<noteq> soon_pharmacy"
    by (simp add: soon_pharmacy_def later_pharmacy_def)
  show "optimize_delivery_route exact_ops clock_fast 0 [soon_pharmacy, later_pharmacy] 1000 Map.empty
       = Inr ([depot exact_ops clock_fast 0, later_pharmacy, soon_pharmacy, depot exact_ops clock_fast 0], 5)"
    using ne
    by (simp add: optimize_delivery_route_def b route_loop.simps sf one fin Let_def eval_nat_numeral)
  show "optimize_delivery_route exact_ops clock_slow 0 [soon_pharmacy, later_pharmacy] 1000 Map.empty
       = Inr ([depot exact_ops clock_slow 0, soon_pharmacy, later_pharmacy, depot exact_ops clock_slow 0], 5)"
    using ne
    by (simp add: optimize_delivery_route_def b route_loop.simps ss one fin Let_def eval_nat_numeral)
qed

text \<open>
  C3, amended. The route is determined by the points, the weather and the readings of the
  wall clock during the call: the urgency of a candidate is computed from the clock as read
  at that scoring step, and two runs whose clocks agree on the \<open>2 + n (n + 1) / 2\<close>
  readings of a call on \<open>n\<close> points (\<open>clock_reads_closed_form\<close>) return the
  same result.
\<close>

theorem optimize_delivery_route_deterministic_given_clock:
  "\<forall>i < 2 + clock_reads (length pharmacies). clk1 (k + i) = clk2 (k + i) \<Longrightarrow>
     optimize_delivery_route F clk1 k pharmacies cap w = optimize_delivery_route F clk2 k pharmacies cap w"
proof -
  assume agree: "\<forall>i < 2 + clock_reads (length pharmacies). clk1 (k + i) = clk2 (k + i)"
  have "(0::nat) < 2 + clock_reads (length pharmacies)" "(1::nat) < 2 + clock_reads (length pharmacies)"
    by simp_all
  with agree have "clk1 (k + 0) = clk2 (k + 0)" "clk1 (k + 1) = clk2 (k + 1)"
    by blast+
  then have d: "depot F clk1 k = depot F clk2 k"
    by (simp add: depot_def)
  have rest: "\<forall>i<clock_reads (length (apply_emergency_priority F pharmacies)).
                 clk1 (Suc (Suc k) + i) = clk2 (Suc (Suc k) + i)"
  proof (intro allI impI)
    fix i assume "i < clock_reads (length (apply_emergency_priority F pharmacies))"
    then have "2 + i < 2 + clock_reads (length pharmacies)"
      by (simp add: length_apply_emergency_priority)
    with agree have "clk1 (k + (2 + i)) = clk2 (k + (2 + i))" by blast
    then show "clk1 (Suc (Suc k) + i) = clk2 (Suc (Suc k) + i)" by simp
  qed
  have "route_loop F clk1 (Suc (Suc k)) w [depot F clk2 k] (apply_emergency_priority F pharmacies)
          = route_loop F clk2 (Suc (Suc k)) w [depot F clk2 k] (apply_emergency_priority F pharmacies)"
    by (rule route_loop_clock [OF rest])
  then show ?thesis
    unfolding optimize_delivery_route_def Let_def d by simp
qed

theorem optimize_delivery_route_deterministic_given_clock_witness:
  "clock_fast 0 = (\<lambda>i. if i < 5 then int i else 0) 0
   \<and> clock_fast 1 = (\<lambda>i. if i < 5 then int i else 0) 1
   \<and> clock_fast 2 = (\<lambda>i. if i < 5 then int i else 0) 2
   \<and> clock_fast 3 = (\<lambda>i. if i < 5 then int i else 0) 3
   \<and> clock_fast 4 = (\<lambda>i. if i < 5 then int i else 0) 4
   \<and> clock_fast 5 \<noteq> (\<lambda>i. if i < 5 then int i else 0) 5
   \<and> 2 + clock_reads (length [soon_pharmacy, later_pharmacy]) = 5
   \<and> optimize_delivery_route exact_ops clock_fast 0 [soon_pharmacy, later_pharmacy] 1000 Map.empty
       = optimize_delivery_route exact_ops (\<lambda>i. if i < 5 then int i else 0) 0
           [soon_pharmacy, later_pharmacy] 1000 Map.empty"
proof -
  have h: "\<forall>i < 2 + clock_reads (length [soon_pharmacy, later_pharmacy]).
             clock_fast (0 + i) = (\<lambda>i. if i < 5 then int i else 0) (0 + i)"
    by (simp add: clock_fast_def)
  have "optimize_delivery_route exact_ops clock_fast 0 [soon_pharmacy, later_pharmacy] 1000 Map.empty
       = optimize_delivery_route exact_ops (\<lambda>i. if i < 5 then int i else 0) 0
           [soon_pharmacy, later_pharmacy] 1000 Map.empty"
    by (rule optimize_delivery_route_deterministic_given_clock [OF h])
  then show ?thesis
    by (simp add: clock_fast_def)
qed

subsection \<open>What priority adjustment leaves untouched\<close>

lemma map_insort_key:
  "g x = f (v x) \<Longrightarrow> \<forall>y\<in>set ys. g y = f (v y) \<Longrightarrow>
     map v (insort_key g x ys) = insort_key f (v x) (map v ys)"
  by (induction ys) auto

lemma map_sort_key:
  "\<forall>x\<in>set xs. g x = f (v x) \<Longrightarrow> map v (sort_key g xs) = sort_key f (map v xs)"
  by (induction xs) (auto simp: map_insort_key)

lemma map_sorted_reverse:
  assumes "\<forall>x\<in>set xs. g x = f (v x)"
  shows "map v (sorted_reverse g xs) = sorted_reverse f (map v xs)"
proof -
  have step: "map v (sort_key (\<lambda>x. sort_rank (g x)) (rev xs))
                = sort_key (\<lambda>x. sort_rank (f x)) (map v (rev xs))"
    by (rule map_sort_key) (simp add: assms)
  have "map v (sorted_reverse g xs) = rev (map v (sort_key (\<lambda>x. sort_rank (g x)) (rev xs)))"
    by (simp add: sorted_reverse_def rev_map)
  also have "\<dots> = rev (sort_key (\<lambda>x. sort_rank (f x)) (map v (rev xs)))"
    by (simp only: step)
  also have "\<dots> = sorted_reverse f (map v xs)"
    by (simp add: sorted_reverse_def rev_map)
  finally show ?thesis .
qed

lemma boost_loop_correct:
  assumes "eb < length h" "h ! eb = ListObj xs"
    and "list_all2 (\<lambda>r p. r < length h \<and> r \<noteq> eb \<and> h ! r = PharmacyObj p) rs ps"
  shows "\<exists>h'. boost_loop F h eb rs = Inr h' \<and> length h' = length h + length rs
           \<and> (\<forall>r<length h. r \<noteq> eb \<longrightarrow> h' ! r = h ! r)
           \<and> h' ! eb = ListObj (xs @ [length h ..< length h + length rs])
           \<and> (\<forall>i<length ps. h' ! (length h + i) = PharmacyObj (boosted_pharmacy F (ps ! i)))"
  using assms
proof (induction rs arbitrary: h xs ps)
  case Nil
  then show ?case by simp
next
  case (Cons r rs)
  from Cons.prems(3) obtain p ps' where ps: "ps = p # ps'"
    and r: "r < length h" "r \<noteq> eb" "h ! r = PharmacyObj p"
    and rest: "list_all2 (\<lambda>r p. r < length h \<and> r \<noteq> eb \<and> h ! r = PharmacyObj p) rs ps'"
    by (auto simp: list_all2_Cons1)
  define h2 where "h2 = (h @ [PharmacyObj (boosted_pharmacy F p)])[eb := ListObj (xs @ [length h])]"
  have len2: "length h2 = Suc (length h)" by (simp add: h2_def)
  have step: "boost_loop F h eb (r # rs) = boost_loop F h2 eb rs"
    using r Cons.prems(1,2) by (simp add: lookup_def alloc_def h2_def nth_append)
  have eb2: "eb < length h2" using Cons.prems(1) len2 by simp
  have at2: "h2 ! eb = ListObj (xs @ [length h])"
    using Cons.prems(1) by (simp add: h2_def)
  have old2: "h2 ! q = h ! q" if "q < length h" "q \<noteq> eb" for q
    using that by (simp add: h2_def nth_append)
  have new2: "h2 ! length h = PharmacyObj (boosted_pharmacy F p)"
    using Cons.prems(1) by (simp add: h2_def nth_append)
  have rest2: "list_all2 (\<lambda>r p. r < length h2 \<and> r \<noteq> eb \<and> h2 ! r = PharmacyObj p) rs ps'"
    using rest by (rule list_all2_mono) (auto simp: len2 old2)
  from Cons.IH [OF eb2 at2 rest2] obtain h' where
    run: "boost_loop F h2 eb rs = Inr h'"
    and len': "length h' = length h2 + length rs"
    and old': "\<forall>q<length h2. q \<noteq> eb \<longrightarrow> h' ! q = h2 ! q"
    and at': "h' ! eb = ListObj ((xs @ [length h]) @ [length h2 ..< length h2 + length rs])"
    and new': "\<forall>i<length ps'. h' ! (length h2 + i) = PharmacyObj (boosted_pharmacy F (ps' ! i))"
    by blast
  have a: "boost_loop F h eb (r # rs) = Inr h'" using step run by simp
  have b: "length h' = length h + length (r # rs)" using len' len2 by simp
  have c: "\<forall>q<length h. q \<noteq> eb \<longrightarrow> h' ! q = h ! q"
    using old' old2 len2 by simp
  have "[length h ..< length h + Suc (length rs)]
          = length h # [Suc (length h) ..< length h + Suc (length rs)]"
    by (rule upt_conv_Cons) simp
  then have "[length h ..< length h + length (r # rs)] = length h # [length h2 ..< length h2 + length rs]"
    by (simp add: len2)
  then have d: "h' ! eb = ListObj (xs @ [length h ..< length h + length (r # rs)])"
    using at' by simp
  have e: "\<forall>i<length ps. h' ! (length h + i) = PharmacyObj (boosted_pharmacy F (ps ! i))"
  proof (intro allI impI)
    fix i assume i: "i < length ps"
    show "h' ! (length h + i) = PharmacyObj (boosted_pharmacy F (ps ! i))"
    proof (cases i)
      case 0
      have "h' ! length h = h2 ! length h"
        using old' len2 Cons.prems(1) by simp
      then show ?thesis using 0 new2 ps by simp
    next
      case (Suc j)
      then have "j < length ps'" using i ps by simp
      with new' have "h' ! (length h2 + j) = PharmacyObj (boosted_pharmacy F (ps' ! j))" by blast
      then show ?thesis using Suc ps len2 by simp
    qed
  qed
  from a b c d e show ?case by blast
qed


lemma apply_emergency_priority_store_correct:
  assumes lst: "lookup h pharmacies = Some (ListObj rs)"
    and vals: "map (lookup h) rs = map (Some \<circ> PharmacyObj) ps"
  shows "\<exists>out outs h'.
           apply_emergency_priority_store F h pharmacies = Inr (out, h')
           \<and> (\<forall>r<length h. lookup h' r = lookup h r)
           \<and> length h \<le> out \<and> lookup h' out = Some (ListObj outs)
           \<and> (\<forall>r\<in>set outs. length h \<le> r \<and> r \<noteq> out) \<and> distinct outs
           \<and> map (lookup h') outs = map (Some \<circ> PharmacyObj) (apply_emergency_priority F ps)"
proof -
  define n where "n = length h"
  define h0 where "h0 = h @ [ListObj []]"
  have len: "length rs = length ps"
    using vals by (metis length_map)
  have each: "rs ! i < n \<and> h ! (rs ! i) = PharmacyObj (ps ! i)" if "i < length rs" for i
  proof -
    have "map (lookup h) rs ! i = map (Some \<circ> PharmacyObj) ps ! i" by (simp only: vals)
    then have "lookup h (rs ! i) = Some (PharmacyObj (ps ! i))"
      using that len by simp
    then show ?thesis
      by (auto simp: lookup_def n_def split: if_splits)
  qed
  have all2: "list_all2 (\<lambda>r p. r < length h0 \<and> r \<noteq> n \<and> h0 ! r = PharmacyObj p) rs ps"
    unfolding list_all2_conv_all_nth
  proof (rule conjI)
    show "length rs = length ps" by (rule len)
  next
    show "\<forall>i<length rs. rs ! i < length h0 \<and> rs ! i \<noteq> n \<and> h0 ! (rs ! i) = PharmacyObj (ps ! i)"
    proof (intro allI impI)
      fix i assume "i < length rs"
      from each [OF this]
      show "rs ! i < length h0 \<and> rs ! i \<noteq> n \<and> h0 ! (rs ! i) = PharmacyObj (ps ! i)"
        by (simp add: h0_def n_def nth_append)
    qed
  qed
  have "n < length h0" "h0 ! n = ListObj []"
    by (simp_all add: h0_def n_def)
  from boost_loop_correct [OF this all2] obtain h1 where
    run: "boost_loop F h0 n rs = Inr h1"
    and len1: "length h1 = length h0 + length rs"
    and old1: "\<forall>r<length h0. r \<noteq> n \<longrightarrow> h1 ! r = h0 ! r"
    and at1: "h1 ! n = ListObj ([] @ [length h0 ..< length h0 + length rs])"
    and new1: "\<forall>i<length ps. h1 ! (length h0 + i) = PharmacyObj (boosted_pharmacy F (ps ! i))"
    by blast
  have len0: "length h0 = Suc n" by (simp add: h0_def n_def)
  define ys where "ys = [Suc n ..< Suc n + length rs]"
  define v where "v r = boosted_pharmacy F (ps ! (r - Suc n))" for r
  have ys_at: "h1 ! r = PharmacyObj (v r) \<and> r < length h1" if "r \<in> set ys" for r
  proof -
    from that obtain i where i: "r = Suc n + i" "i < length ps"
      unfolding ys_def len by (auto simp: nat_le_iff_add)
    with new1 show ?thesis by (simp add: len0 len1 len v_def)
  qed
  have allp: "list_all (is_pharmacy h1) ys"
    unfolding list_all_iff using ys_at by (auto simp: is_pharmacy_def lookup_def)
  define outs where "outs = sorted_reverse (priority_at h1) ys"
  define h2 where "h2 = h1 @ [ListObj outs]"
  have "[length h0 ..< length h0 + length rs] = ys"
    by (simp only: ys_def len0)
  with at1 have "h1 ! n = ListObj ys" by simp
  moreover have "n < length h1" by (simp add: len1 len0)
  ultimately have at1': "lookup h1 n = Some (ListObj ys)"
    by (simp add: lookup_def)
  have res: "apply_emergency_priority_store F h pharmacies = Inr (length h1, h2)"
    by (simp add: apply_emergency_priority_store_def alloc_def lst h0_def [symmetric]
          n_def [symmetric] run at1' allp outs_def h2_def)
  have set_outs: "set outs = set ys"
    by (simp add: outs_def sorted_reverse_def)
  have frame: "\<forall>r<length h. lookup h2 r = lookup h r"
  proof (intro allI impI)
    fix r assume r: "r < length h"
    then have "h1 ! r = h0 ! r" using old1 by (simp add: len0 n_def)
    then show "lookup h2 r = lookup h r"
      using r by (simp add: lookup_def h2_def len1 len0 n_def h0_def nth_append)
  qed
  have fresh: "\<forall>r\<in>set outs. length h \<le> r \<and> r \<noteq> length h1"
  proof
    fix r assume "r \<in> set outs"
    then have "r \<in> set ys" by (simp add: set_outs)
    then have "Suc n \<le> r" "r < Suc n + length rs" by (simp_all add: ys_def del: upt_Suc)
    then show "length h \<le> r \<and> r \<noteq> length h1" by (simp add: n_def len1 len0)
  qed
  have dist: "distinct outs"
    by (simp add: outs_def sorted_reverse_def ys_def)
  have key: "\<forall>r\<in>set ys. priority_at h1 r = priority (v r)"
    using ys_at by (auto simp: priority_at_def lookup_def)
  have "map v ys = map (boosted_pharmacy F) ps"
    by (rule nth_equalityI) (simp_all add: ys_def v_def len del: upt_Suc)
  moreover have "map v (sorted_reverse (priority_at h1) ys) = sorted_reverse priority (map v ys)"
    using key by (rule map_sorted_reverse [of ys "priority_at h1" priority v])
  ultimately have sorted_vals: "map v outs = apply_emergency_priority F ps"
    by (simp add: outs_def apply_emergency_priority_def Let_def)
  have "map (lookup h2) outs = map (Some \<circ> PharmacyObj \<circ> v) outs"
  proof (rule map_cong [OF refl])
    fix r assume "r \<in> set outs"
    then have "r \<in> set ys" by (simp add: set_outs)
    from ys_at [OF this] show "lookup h2 r = (Some \<circ> PharmacyObj \<circ> v) r"
      by (simp add: lookup_def h2_def nth_append)
  qed
  also have "\<dots> = map (Some \<circ> PharmacyObj) (map v outs)" by simp
  finally have vals': "map (lookup h2) outs = map (Some \<circ> PharmacyObj) (apply_emergency_priority F ps)"
    by (simp only: sorted_vals)
  have out: "length h \<le> length h1" "lookup h2 (length h1) = Some (ListObj outs)"
    by (simp add: len1 len0 n_def) (simp add: lookup_def h2_def)
  from res frame out fresh dist vals' show ?thesis by blast
qed

text \<open>
  C10. Priority adjustment changes the priority only and mutates nothing it was given. On
  a store in which \<open>pharmacies\<close> is a list of references to \<open>Pharmacy\<close> objects with
  the values \<open>ps\<close>, the call raises nothing; every object of the store before the call,
  the input list and its elements among them, is the same after the call; the list returned
  and all its elements are objects allocated by the call; the values of the returned
  elements are \<open>apply_emergency_priority F ps\<close>, which are the input values with the
  priority replaced by \<open>min(10, priority * multiplier)\<close>, each once, so that ids, names,
  latitudes, longitudes and delivery windows are those of the input.
\<close>

theorem apply_emergency_priority_frame:
  assumes "lookup h pharmacies = Some (ListObj rs)"
    and "map (lookup h) rs = map (Some \<circ> PharmacyObj) ps"
  shows "\<exists>out outs h'.
           apply_emergency_priority_store F h pharmacies = Inr (out, h')
           \<and> (\<forall>r<length h. lookup h' r = lookup h r)
           \<and> length h \<le> out \<and> lookup h' out = Some (ListObj outs)
           \<and> (\<forall>r\<in>set outs. length h \<le> r \<and> r \<noteq> out) \<and> distinct outs
           \<and> map (lookup h') outs = map (Some \<circ> PharmacyObj) (apply_emergency_priority F ps)
           \<and> mset (apply_emergency_priority F ps)
               = mset (map (\<lambda>p. p\<lparr>priority := py_min (Fin 10) (f_mul F (priority p) (detect_emergency_situation F p))\<rparr>) ps)
           \<and> mset (map point_of (apply_emergency_priority F ps)) = mset (map point_of ps)"
proof -
  have "(\<lambda>p. p\<lparr>priority := py_min (Fin 10) (f_mul F (priority p) (detect_emergency_situation F p))\<rparr>) = boosted_pharmacy F"
    by (rule ext) (simp add: boosted_pharmacy_update)
  then have "mset (apply_emergency_priority F ps)
               = mset (map (\<lambda>p. p\<lparr>priority := py_min (Fin 10) (f_mul F (priority p) (detect_emergency_situation F p))\<rparr>) ps)"
    by (simp only: mset_apply_emergency_priority)
  with apply_emergency_priority_store_correct [OF assms] mset_point_of_apply [of F ps]
  show ?thesis by blast
qed

theorem apply_emergency_priority_frame_witness:
  "lookup [PharmacyObj example_pharmacy, ListObj [0]] 1 = Some (ListObj [0])
   \<and> map (lookup [PharmacyObj example_pharmacy, ListObj [0]]) [0] = map (Some \<circ> PharmacyObj) [example_pharmacy]
   \<and> (\<exists>out outs h'.
           apply_emergency_priority_store exact_ops [PharmacyObj example_pharmacy, ListObj [0]] 1 = Inr (out, h')
           \<and> (\<forall>r<length [PharmacyObj example_pharmacy, ListObj [0]].
                  lookup h' r = lookup [PharmacyObj example_pharmacy, ListObj [0]] r)
           \<and> length [PharmacyObj example_pharmacy, ListObj [0]] \<le> out \<and> lookup h' out = Some (ListObj outs)
           \<and> (\<forall>r\<in>set outs. length [PharmacyObj example_pharmacy, ListObj [0]] \<le> r \<and> r \<noteq> out) \<and> distinct outs
           \<and> map (lookup h') outs = map (Some \<circ> PharmacyObj) (apply_emergency_priority exact_ops [example_pharmacy])
           \<and> mset (apply_emergency_priority exact_ops [example_pharmacy])
               = mset (map (\<lambda>p. p\<lparr>priority := py_min (Fin 10) (f_mul exact_ops (priority p) (detect_emergency_situation exact_ops p))\<rparr>) [example_pharmacy])
           \<and> mset (map point_of (apply_emergency_priority exact_ops [example_pharmacy])) = mset (map point_of [example_pharmacy]))"
proof -
  have h1: "lookup [PharmacyObj example_pharmacy, ListObj [0]] 1 = Some (ListObj [0])"
    by (simp add: lookup_def)
  have h2: "map (lookup [PharmacyObj example_pharmacy, ListObj [0]]) [0] = map (Some \<circ> PharmacyObj) [example_pharmacy]"
    by (simp add: lookup_def)
  from apply_emergency_priority_frame [OF h1 h2, of exact_ops] h1 h2
  show ?thesis by blast
qed

end
